theory Spec2Isabelle
  imports Complex_Main
begin

section \<open>The bank simulation of OOP/FHNW/bankv2.py\<close>

text \<open>
  Conventions of the embedding.
  \<^item> A Python \<open>float\<close> is a binary64 number. A finite one is modelled by the \<open>real\<close>
    number it denotes, and every floating-point operation of the source (\<open>+\<close>, \<open>-\<close>,
    \<open>*\<close>, and reading the literal \<open>0.01\<close>) by the exact operation followed by the
    rounding \<open>rnd\<close>, which every definition that computes with amounts takes as its first
    argument. Nothing is assumed of \<open>rnd\<close> unless a theorem says so, so each theorem
    holds in particular for the rounding to the nearest binary64 number. Negation,
    comparisons and the literals \<open>0.0\<close> and \<open>500.0\<close> are exact in binary64. NaN,
    infinities and overflow are outside the model.
  \<^item> Python \<open>str\<close> is modelled as \<open>string\<close>, one \<open>char\<close> per code point below 256
    (so the u-umlaut of the fee memo is the single character \<open>0xFC\<close>).
  \<^item> \<open>Account\<close> objects are mutable and shared by reference (the registry, the bank's
    \<open>_fee_account\<close> attribute and the caller of \<open>open_account\<close> may all hold the same
    object), so the bank carries an explicit object store \<open>objects\<close>: a reference is an
    index into it, and a new object is appended at the end.
  \<^item> Every operation takes the bank and returns its result together with the bank
    after the call; a raised exception is an \<open>Inl\<close> result.
  \<^item> Console output (\<open>print\<close>) is not modelled.
\<close>

subsection \<open>Journal records\<close>

record Transaction =
  timestamp :: int
  from_account :: "string option"
  to_account :: "string option"
  amount :: real
  usage :: string

record TransactionEntry =
  entry_timestamp :: int
  counterparty :: "string option"
  entry_amount :: real
  entry_usage :: string

subsection \<open>Policies\<close>

datatype WithdrawalPolicy = NoOverdraftPolicy | OverdraftPolicy real | NoWithdrawalPolicy

datatype FeePolicy = NoFeePolicy | PercentageFeePolicy real

fun policy_can_withdraw :: "(real \<Rightarrow> real) \<Rightarrow> WithdrawalPolicy \<Rightarrow> real \<Rightarrow> real \<Rightarrow> bool" where
  "policy_can_withdraw rnd NoOverdraftPolicy bal amt = (bal \<ge> amt)"
| "policy_can_withdraw rnd (OverdraftPolicy overdraft_limit) bal amt =
     (rnd (bal - amt) \<ge> - overdraft_limit)"
| "policy_can_withdraw rnd NoWithdrawalPolicy bal amt = False"

fun policy_calculate_fee :: "(real \<Rightarrow> real) \<Rightarrow> FeePolicy \<Rightarrow> real \<Rightarrow> real" where
  "policy_calculate_fee rnd NoFeePolicy amt = 0"
| "policy_calculate_fee rnd (PercentageFeePolicy fee_rate) amt = rnd (amt * fee_rate)"

subsection \<open>Accounts\<close>

text \<open>
  One record for \<open>Account\<close> and its subclass \<open>SavingsAccount\<close>: \<open>interest_rate\<close> is
  \<open>None\<close> for a plain \<open>Account\<close> (which has no such attribute and no
  \<open>apply_interest\<close>) and \<open>Some r\<close> for a \<open>SavingsAccount\<close>.
\<close>

record Account =
  account_id :: string
  withdrawal_policy :: WithdrawalPolicy
  fee_policy :: FeePolicy
  balance :: real
  active :: bool
  transactions :: "TransactionEntry list"
  interest_rate :: "real option"

datatype error = UnknownAccountType | InvalidAmount | AttributeError

definition Account_init :: "string \<Rightarrow> WithdrawalPolicy \<Rightarrow> FeePolicy \<Rightarrow> Account" where
  "Account_init aid wp fp =
     \<lparr>account_id = aid, withdrawal_policy = wp, fee_policy = fp, balance = 0,
      active = True, transactions = [], interest_rate = None\<rparr>"

definition SavingsAccount_init :: "string \<Rightarrow> real \<Rightarrow> Account" where
  "SavingsAccount_init aid rate =
     (Account_init aid NoOverdraftPolicy NoFeePolicy)\<lparr>interest_rate := Some rate\<rparr>"

text \<open>Python's \<open>xs[start:]\<close> for an integer \<open>start\<close> (negative counts from the end,
  both directions clamp to the list).\<close>

definition slice_from :: "int \<Rightarrow> 'a list \<Rightarrow> 'a list" where
  "slice_from start xs =
     (let n = int (length xs);
          s = (if start < 0 then max (start + n) 0 else min start n)
      in drop (nat s) xs)"

definition get_transactions :: "int option \<Rightarrow> Account \<Rightarrow> TransactionEntry list" where
  "get_transactions count a =
     (case count of None \<Rightarrow> transactions a
      | Some c \<Rightarrow> slice_from (- c) (transactions a))"

definition close :: "Account \<Rightarrow> bool \<times> Account" where
  "close a = (if balance a = 0 then (True, a\<lparr>active := False\<rparr>) else (False, a))"

definition record_transaction :: "TransactionEntry \<Rightarrow> Account \<Rightarrow> Account" where
  "record_transaction entry a = a\<lparr>transactions := transactions a @ [entry]\<rparr>"

definition deposit_amount :: "(real \<Rightarrow> real) \<Rightarrow> real \<Rightarrow> Account \<Rightarrow> Account" where
  "deposit_amount rnd amt a = a\<lparr>balance := rnd (balance a + amt)\<rparr>"

definition withdraw_amount :: "(real \<Rightarrow> real) \<Rightarrow> real \<Rightarrow> Account \<Rightarrow> Account" where
  "withdraw_amount rnd amt a = a\<lparr>balance := rnd (balance a - amt)\<rparr>"

definition can_withdraw :: "(real \<Rightarrow> real) \<Rightarrow> Account \<Rightarrow> real \<Rightarrow> bool" where
  "can_withdraw rnd a amt = policy_can_withdraw rnd (withdrawal_policy a) (balance a) amt"

definition calculate_fee :: "(real \<Rightarrow> real) \<Rightarrow> Account \<Rightarrow> real \<Rightarrow> real" where
  "calculate_fee rnd a amt = policy_calculate_fee rnd (fee_policy a) amt"

definition apply_interest :: "(real \<Rightarrow> real) \<Rightarrow> Account \<Rightarrow> error + Account" where
  "apply_interest rnd a =
     (case interest_rate a of
        None \<Rightarrow> Inl AttributeError
      | Some r \<Rightarrow> Inr (deposit_amount rnd (rnd (balance a * r)) a))"

subsection \<open>Strings: lower-casing and the generated identifiers\<close>

definition lower_char :: "char \<Rightarrow> char" where
  "lower_char c =
     (let n = (of_char c :: nat)
      in if (65 \<le> n \<and> n \<le> 90) \<or> (192 \<le> n \<and> n \<le> 222 \<and> n \<noteq> 215)
         then char_of (n + 32) else c)"

definition lower :: "string \<Rightarrow> string" where
  "lower s = map lower_char s"

fun digits :: "nat \<Rightarrow> string" where
  "digits n = (if n < 10 then [char_of (48 + n)]
               else digits (n div 10) @ [char_of (48 + n mod 10)])"

declare digits.simps [simp del]

text \<open>The format \<open>{:06d}\<close>: at least six characters, zero-padded after the sign.\<close>

definition format_06d :: "int \<Rightarrow> string" where
  "format_06d i =
     (if i < 0
      then CHR ''-'' # replicate (5 - length (digits (nat (- i)))) CHR ''0'' @ digits (nat (- i))
      else replicate (6 - length (digits (nat i))) CHR ''0'' @ digits (nat i))"

subsection \<open>The bank\<close>

text \<open>
  A factory is the constructor call it performs on the identifier it is given:
  \<open>lambda aid: Account(aid, wp, fp)\<close> or \<open>lambda aid: SavingsAccount(aid, interest_rate=r)\<close>.
\<close>

datatype factory = AccountFactory WithdrawalPolicy FeePolicy | SavingsFactory real

fun make_account :: "factory \<Rightarrow> string \<Rightarrow> Account" where
  "make_account (AccountFactory wp fp) aid = Account_init aid wp fp"
| "make_account (SavingsFactory r) aid = SavingsAccount_init aid r"

record Bank =
  accounts :: "string \<rightharpoonup> nat"
  journal :: "Transaction list"
  current_timestamp :: int
  account_id_counter :: int
  account_factories :: "string \<rightharpoonup> factory"
  fee_account :: nat
  objects :: "Account list"

definition register_account_type :: "string \<Rightarrow> factory \<Rightarrow> Bank \<Rightarrow> Bank" where
  "register_account_type type_name f b =
     b\<lparr>account_factories := (account_factories b)(lower type_name \<mapsto> f)\<rparr>"

definition Bank_init :: "(real \<Rightarrow> real) \<Rightarrow> Bank" where
  "Bank_init rnd =
     (let b0 = \<lparr>accounts = Map.empty, journal = [], current_timestamp = 0,
                account_id_counter = 1, account_factories = Map.empty,
                fee_account = 0, objects = []\<rparr>;
          b1 = register_account_type ''youth'' (AccountFactory NoOverdraftPolicy NoFeePolicy) b0;
          b2 = register_account_type ''savings'' (SavingsFactory (rnd (1 / 100))) b1;
          b3 = register_account_type ''private''
                 (AccountFactory (OverdraftPolicy 500) (PercentageFeePolicy (rnd (1 / 100)))) b2;
          fee = Account_init ''FEE-0001'' NoWithdrawalPolicy NoFeePolicy
      in b3\<lparr>fee_account := length (objects b3),
            objects := objects b3 @ [fee],
            accounts := (accounts b3)(account_id fee \<mapsto> length (objects b3))\<rparr>)"

definition get_timestamp :: "Bank \<Rightarrow> int \<times> Bank" where
  "get_timestamp b =
     (current_timestamp b + 1, b\<lparr>current_timestamp := current_timestamp b + 1\<rparr>)"

definition generate_account_id :: "Bank \<Rightarrow> string \<times> Bank" where
  "generate_account_id b =
     (CHR ''A'' # format_06d (account_id_counter b),
      b\<lparr>account_id_counter := account_id_counter b + 1\<rparr>)"

text \<open>\<open>open_account\<close> returns a reference to the new object.\<close>

definition open_account :: "string \<Rightarrow> string option \<Rightarrow> Bank \<Rightarrow> (error + nat) \<times> Bank" where
  "open_account account_type aid_opt b =
     (let key = lower account_type in
      case account_factories b key of
        None \<Rightarrow> (Inl UnknownAccountType, b)
      | Some f \<Rightarrow>
          (let (aid, b1) = (case aid_opt of None \<Rightarrow> generate_account_id b
                            | Some i \<Rightarrow> (i, b));
               r = length (objects b1)
           in (Inr r, b1\<lparr>objects := objects b1 @ [make_account f aid],
                          accounts := (accounts b1)(aid \<mapsto> r)\<rparr>)))"

definition update_object :: "nat \<Rightarrow> (Account \<Rightarrow> Account) \<Rightarrow> Bank \<Rightarrow> Bank" where
  "update_object r f b = b\<lparr>objects := (objects b)[r := f (objects b ! r)]\<rparr>"

definition id_of :: "Bank \<Rightarrow> nat option \<Rightarrow> string option" where
  "id_of b ref = map_option (\<lambda>r. account_id (objects b ! r)) ref"

definition execute_transaction ::
  "(real \<Rightarrow> real) \<Rightarrow> nat option \<Rightarrow> nat option \<Rightarrow> real \<Rightarrow> string \<Rightarrow> Bank \<Rightarrow> (error + unit) \<times> Bank" where
  "execute_transaction rnd from_ref to_ref amt use b =
     (if amt \<le> 0 then (Inl InvalidAmount, b)
      else
        (let (ts, b1) = get_timestamp b;
             b2 = (case from_ref of None \<Rightarrow> b1
                   | Some f \<Rightarrow>
                       update_object f
                         (\<lambda>a. record_transaction
                                 \<lparr>entry_timestamp = ts, counterparty = id_of b1 to_ref,
                                  entry_amount = - amt, entry_usage = use\<rparr>
                                 (withdraw_amount rnd amt a)) b1);
             b3 = (case to_ref of None \<Rightarrow> b2
                   | Some t \<Rightarrow>
                       update_object t
                         (\<lambda>a. record_transaction
                                 \<lparr>entry_timestamp = ts, counterparty = id_of b2 from_ref,
                                  entry_amount = amt, entry_usage = use\<rparr>
                                 (deposit_amount rnd amt a)) b2)
         in (Inr (),
             b3\<lparr>journal := journal b3 @
                   [\<lparr>timestamp = ts, from_account = id_of b3 from_ref,
                     to_account = id_of b3 to_ref, amount = amt, usage = use\<rparr>]\<rparr>)))"

definition deposit_cash :: "(real \<Rightarrow> real) \<Rightarrow> string \<Rightarrow> real \<Rightarrow> Bank \<Rightarrow> bool \<times> Bank" where
  "deposit_cash rnd aid amt b =
     (case accounts b aid of
        None \<Rightarrow> (False, b)
      | Some r \<Rightarrow>
          if \<not> active (objects b ! r) then (False, b)
          else (case execute_transaction rnd None (Some r) amt ''Bareinzahlung'' b of
                  (Inr u, b1) \<Rightarrow> (True, b1)
                | (Inl e, b1) \<Rightarrow> (False, b1)))"

definition fee_usage :: "string \<Rightarrow> string" where
  "fee_usage use =
     (if use \<noteq> [] then ''Geb'' @ [char_of (252 :: nat)] @ ''hr: '' @ use
      else ''Geb'' @ [char_of (252 :: nat)] @ ''hr'')"

definition transfer ::
  "(real \<Rightarrow> real) \<Rightarrow> string \<Rightarrow> string \<Rightarrow> real \<Rightarrow> string \<Rightarrow> Bank \<Rightarrow> bool \<times> Bank" where
  "transfer rnd debit_account_id credit_account_id amt use b =
     (case accounts b debit_account_id of
        None \<Rightarrow> (False, b)
      | Some debit \<Rightarrow>
         (case accounts b credit_account_id of
            None \<Rightarrow> (False, b)
          | Some credit \<Rightarrow>
              if \<not> (active (objects b ! debit) \<and> active (objects b ! credit)) then (False, b)
              else
                (let fee = calculate_fee rnd (objects b ! debit) amt;
                     total = rnd (amt + fee)
                 in if \<not> can_withdraw rnd (objects b ! debit) total then (False, b)
                    else
                      (case execute_transaction rnd (Some debit) (Some credit) amt use b of
                         (Inl e, b1) \<Rightarrow> (False, b1)
                       | (Inr u, b1) \<Rightarrow>
                           if fee > 0
                           then (case execute_transaction rnd (Some debit) (Some (fee_account b1))
                                        fee (fee_usage use) b1 of
                                   (Inl e, b2) \<Rightarrow> (False, b2)
                                 | (Inr u, b2) \<Rightarrow> (True, b2))
                           else (True, b1)))))"

definition get_balance :: "string \<Rightarrow> Bank \<Rightarrow> real option" where
  "get_balance aid b = map_option (\<lambda>r. balance (objects b ! r)) (accounts b aid)"

definition get_account_transactions ::
  "string \<Rightarrow> int option \<Rightarrow> Bank \<Rightarrow> TransactionEntry list option" where
  "get_account_transactions aid count b =
     map_option (\<lambda>r. get_transactions count (objects b ! r)) (accounts b aid)"

definition get_bank_transactions :: "int option \<Rightarrow> Bank \<Rightarrow> Transaction list" where
  "get_bank_transactions count b =
     (case count of None \<Rightarrow> journal b | Some c \<Rightarrow> slice_from (- c) (journal b))"

definition close_account :: "string \<Rightarrow> Bank \<Rightarrow> bool \<times> Bank" where
  "close_account aid b =
     (case accounts b aid of
        None \<Rightarrow> (False, b)
      | Some r \<Rightarrow>
          if \<not> active (objects b ! r) then (False, b)
          else if balance (objects b ! r) \<noteq> 0 then (False, b)
          else (fst (close (objects b ! r)), update_object r (\<lambda>a. snd (close a)) b))"

text \<open>\<open>apply_interest\<close> called on the object behind a reference the caller holds.\<close>

definition apply_interest_at :: "(real \<Rightarrow> real) \<Rightarrow> nat \<Rightarrow> Bank \<Rightarrow> (error + unit) \<times> Bank" where
  "apply_interest_at rnd r b =
     (case apply_interest rnd (objects b ! r) of
        Inl e \<Rightarrow> (Inl e, b)
      | Inr a \<Rightarrow> (Inr (), update_object r (\<lambda>_. a) b))"

subsection \<open>Sequences of operations\<close>

datatype operation =
    OpenAccount string "string option"
  | RegisterAccountType string factory
  | DepositCash string real
  | Transfer string string real string
  | CloseAccount string
  | ApplyInterest nat

text \<open>
  A reference handed to \<open>ApplyInterest\<close> must be one the caller obtained, that is an
  object of the store; any other is ignored.
\<close>

fun step :: "(real \<Rightarrow> real) \<Rightarrow> operation \<Rightarrow> Bank \<Rightarrow> Bank" where
  "step rnd (OpenAccount ty aid) b = snd (open_account ty aid b)"
| "step rnd (RegisterAccountType ty f) b = register_account_type ty f b"
| "step rnd (DepositCash aid amt) b = snd (deposit_cash rnd aid amt b)"
| "step rnd (Transfer d c amt use) b = snd (transfer rnd d c amt use b)"
| "step rnd (CloseAccount aid) b = snd (close_account aid b)"
| "step rnd (ApplyInterest r) b =
     (if r < length (objects b) then snd (apply_interest_at rnd r b) else b)"

definition run :: "(real \<Rightarrow> real) \<Rightarrow> operation list \<Rightarrow> Bank \<Rightarrow> Bank" where
  "run rnd ops b = fold (step rnd) ops b"

fun is_ledger_operation :: "operation \<Rightarrow> bool" where
  "is_ledger_operation (ApplyInterest r) = False"
| "is_ledger_operation _ = True"

fun is_self_transfer :: "operation \<Rightarrow> bool" where
  "is_self_transfer (Transfer d c amt use) = (d = c)"
| "is_self_transfer _ = False"

subsection \<open>Predicates on states\<close>

text \<open>
  Adding up a list of amounts from \<open>0.0\<close>, in order, with the floating-point addition of
  the source; with a rounding that leaves every partial sum alone this is the exact sum.
\<close>

definition accumulate :: "(real \<Rightarrow> real) \<Rightarrow> real list \<Rightarrow> real" where
  "accumulate rnd xs = foldl (\<lambda>acc x. rnd (acc + x)) 0 xs"

definition balance_matches_history :: "(real \<Rightarrow> real) \<Rightarrow> Account \<Rightarrow> bool" where
  "balance_matches_history rnd a =
     (balance a = accumulate rnd (map entry_amount (transactions a)))"

text \<open>None of the additions made while adding up the list rounds.\<close>

definition unrounded :: "(real \<Rightarrow> real) \<Rightarrow> real list \<Rightarrow> bool" where
  "unrounded rnd xs =
     (\<forall>k<length xs. rnd (sum_list (take k xs) + xs ! k) = sum_list (take k xs) + xs ! k)"

text \<open>
  The shape of a bank built by \<open>Bank.__init__\<close> and the operations above: every
  reference of the registry and the fee reference point into the store, the object
  registered under a key carries that key as its identifier, and the object behind
  \<open>_fee_account\<close> is the plain account \<open>FEE-0001\<close> with the no-withdrawal policy.
\<close>

definition bank_inv :: "Bank \<Rightarrow> bool" where
  "bank_inv b =
     (fee_account b < length (objects b) \<and>
      (\<forall>i r. accounts b i = Some r \<longrightarrow>
             r < length (objects b) \<and> account_id (objects b ! r) = i) \<and>
      withdrawal_policy (objects b ! fee_account b) = NoWithdrawalPolicy \<and>
      account_id (objects b ! fee_account b) = ''FEE-0001'' \<and>
      interest_rate (objects b ! fee_account b) = None)"

definition history_timestamps :: "Account \<Rightarrow> int list" where
  "history_timestamps a = map entry_timestamp (transactions a)"

definition history_ordered :: "bool \<Rightarrow> Account \<Rightarrow> bool" where
  "history_ordered strict a =
     (if strict then sorted_wrt (<) (history_timestamps a) else sorted (history_timestamps a))"

text \<open>
  The clock is never negative, the journal carries the timestamps \<open>1, 2, \<dots>\<close> up to the
  clock, and every history is ordered (strictly or not) with no timestamp beyond the clock.
\<close>

definition clock_inv :: "bool \<Rightarrow> Bank \<Rightarrow> bool" where
  "clock_inv strict b =
     (0 \<le> current_timestamp b \<and>
      map timestamp (journal b) = [1..current_timestamp b] \<and>
      (\<forall>q<length (objects b).
         history_ordered strict (objects b ! q) \<and>
         (\<forall>t\<in>set (history_timestamps (objects b ! q)). t \<le> current_timestamp b)))"

text \<open>An \<open>open_account\<close> call that names the identifier of the fee-collection account.\<close>

fun opens_fee_id :: "operation \<Rightarrow> bool" where
  "opens_fee_id (OpenAccount ty (Some aid)) = (aid = ''FEE-0001'')"
| "opens_fee_id _ = False"

subsection \<open>Example states\<close>

text \<open>
  The examples use amounts on which binary64 arithmetic does not round (small integers,
  and products with \<open>0.01\<close> whose rounded result is an integer), so they are run with the
  rounding that leaves every number alone.
\<close>

definition exact :: "real \<Rightarrow> real" where
  "exact x = x"

definition bank_interest :: Bank where
  "bank_interest = run exact [OpenAccount ''savings'' (Some ''S''), DepositCash ''S'' 1000,
                        ApplyInterest 1] (Bank_init exact)"

definition bank_self :: Bank where
  "bank_self = run exact [OpenAccount ''youth'' (Some ''A''), DepositCash ''A'' 10,
                    Transfer ''A'' ''A'' 5 ''x''] (Bank_init exact)"

definition bank_fee_replaced :: Bank where
  "bank_fee_replaced = run exact [OpenAccount ''private'' (Some ''FEE-0001''),
                            OpenAccount ''youth'' (Some ''A'')] (Bank_init exact)"

definition bank_private :: Bank where
  "bank_private = run exact [OpenAccount ''private'' (Some ''P''), OpenAccount ''youth'' (Some ''Y''),
                       DepositCash ''P'' 500] (Bank_init exact)"

definition ops_fee :: "operation list" where
  "ops_fee = [OpenAccount ''private'' (Some ''P''), OpenAccount ''youth'' (Some ''Y''),
              DepositCash ''P'' 500, Transfer ''P'' ''Y'' 100 ''rent'']"

definition ops_rounding :: "operation list" where
  "ops_rounding = [OpenAccount ''youth'' (Some ''A''), OpenAccount ''youth'' (Some ''B''),
                   DepositCash ''A'' 10000000000000000, DepositCash ''A'' 1,
                   Transfer ''A'' ''B'' 10000000000000000 []]"

text \<open>
  Binary64 has no number between \<open>1e16\<close> and \<open>1e16 + 2\<close> and rounds \<open>1e16 + 1\<close> to
  \<open>1e16\<close>; every other number that occurs when \<open>ops_rounding\<close> is run is a binary64
  number. On these numbers \<open>round_1e16\<close> is the binary64 rounding.
\<close>

definition round_1e16 :: "real \<Rightarrow> real" where
  "round_1e16 x = (if x = 10000000000000001 then 10000000000000000 else x)"

definition bank_youth :: Bank where
  "bank_youth = run exact [OpenAccount ''youth'' (Some ''A'')] (Bank_init exact)"

definition bank_a :: Bank where
  "bank_a = run exact [OpenAccount ''youth'' (Some ''A''), OpenAccount ''private'' (Some ''B''),
                 DepositCash ''A'' 50] (Bank_init exact)"

section \<open>Basic facts about the operations\<close>

lemma execute_nonpos:
  "amt \<le> 0 \<Longrightarrow> execute_transaction rnd fr to amt u b = (Inl InvalidAmount, b)"
  by (simp add: execute_transaction_def)

lemma execute_pos_fst:
  "0 < amt \<Longrightarrow> fst (execute_transaction rnd fr to amt u b) = Inr ()"
  by (simp add: execute_transaction_def get_timestamp_def Let_def)

lemma account_id_update [simp]:
  "account_id (record_transaction e a) = account_id a"
  "account_id (withdraw_amount rnd x a) = account_id a"
  "account_id (deposit_amount rnd x a) = account_id a"
  by (simp_all add: record_transaction_def withdraw_amount_def deposit_amount_def)

lemma account_id_list_update:
  assumes "\<And>a. account_id (f a) = account_id a"
  shows "account_id (xs[r := f (xs ! r)] ! q) = account_id (xs ! q)"
proof (cases "r < length xs")
  case True
  then show ?thesis using assms by (simp add: nth_list_update)
next
  case False
  then have "xs[r := f (xs ! r)] = xs" by (simp add: list_update_beyond)
  then show ?thesis by simp
qed

lemma id_of_update_object:
  "(\<And>a. account_id (f a) = account_id a) \<Longrightarrow> id_of (update_object r f b) ref = id_of b ref"
  by (cases ref) (simp_all add: id_of_def update_object_def account_id_list_update)

lemma id_of_timestamp [simp]:
  "id_of (b\<lparr>current_timestamp := t\<rparr>) ref = id_of b ref"
  by (simp add: id_of_def)

lemma update_object_fields [simp]:
  "accounts (update_object r f b) = accounts b"
  "journal (update_object r f b) = journal b"
  "current_timestamp (update_object r f b) = current_timestamp b"
  "account_id_counter (update_object r f b) = account_id_counter b"
  "account_factories (update_object r f b) = account_factories b"
  "fee_account (update_object r f b) = fee_account b"
  "length (objects (update_object r f b)) = length (objects b)"
  by (simp_all add: update_object_def)

lemma update_object_nth:
  "q < length (objects b) \<Longrightarrow>
   objects (update_object r f b) ! q = (if q = r then f (objects b ! q) else objects b ! q)"
  by (simp add: update_object_def nth_list_update)

lemma execute_frame:
  "accounts (snd (execute_transaction rnd fr to amt u b)) = accounts b"
  "account_id_counter (snd (execute_transaction rnd fr to amt u b)) = account_id_counter b"
  "account_factories (snd (execute_transaction rnd fr to amt u b)) = account_factories b"
  "fee_account (snd (execute_transaction rnd fr to amt u b)) = fee_account b"
  "length (objects (snd (execute_transaction rnd fr to amt u b))) = length (objects b)"
  by (simp_all add: execute_transaction_def get_timestamp_def Let_def split: option.splits)

lemma execute_clock:
  "0 < amt \<Longrightarrow>
   current_timestamp (snd (execute_transaction rnd fr to amt u b)) = current_timestamp b + 1"
  by (simp add: execute_transaction_def get_timestamp_def Let_def split: option.splits)

lemma execute_journal:
  "0 < amt \<Longrightarrow>
   journal (snd (execute_transaction rnd fr to amt u b)) =
     journal b @ [\<lparr>timestamp = current_timestamp b + 1, from_account = id_of b fr,
                   to_account = id_of b to, amount = amt, usage = u\<rparr>]"
  by (simp add: execute_transaction_def get_timestamp_def Let_def id_of_update_object
           split: option.splits)

lemma execute_object:
  "0 < amt \<Longrightarrow> q < length (objects b) \<Longrightarrow>
   objects (snd (execute_transaction rnd fr to amt u b)) ! q =
     (let a0 = objects b ! q;
          a1 = (if fr = Some q
                then record_transaction
                       \<lparr>entry_timestamp = current_timestamp b + 1, counterparty = id_of b to,
                        entry_amount = - amt, entry_usage = u\<rparr> (withdraw_amount rnd amt a0)
                else a0)
      in if to = Some q
         then record_transaction
                \<lparr>entry_timestamp = current_timestamp b + 1, counterparty = id_of b fr,
                 entry_amount = amt, entry_usage = u\<rparr> (deposit_amount rnd amt a1)
         else a1)"
  by (simp add: execute_transaction_def get_timestamp_def Let_def id_of_update_object
        update_object_nth split: option.splits)

lemma policy_update [simp]:
  "withdrawal_policy (record_transaction e a) = withdrawal_policy a"
  "withdrawal_policy (withdraw_amount rnd x a) = withdrawal_policy a"
  "withdrawal_policy (deposit_amount rnd x a) = withdrawal_policy a"
  "interest_rate (record_transaction e a) = interest_rate a"
  "interest_rate (withdraw_amount rnd x a) = interest_rate a"
  "interest_rate (deposit_amount rnd x a) = interest_rate a"
  "fee_policy (record_transaction e a) = fee_policy a"
  "fee_policy (withdraw_amount rnd x a) = fee_policy a"
  "fee_policy (deposit_amount rnd x a) = fee_policy a"
  "active (record_transaction e a) = active a"
  "active (withdraw_amount rnd x a) = active a"
  "active (deposit_amount rnd x a) = active a"
  by (simp_all add: record_transaction_def withdraw_amount_def deposit_amount_def)

lemma execute_static:
  assumes "q < length (objects b)"
  shows "account_id (objects (snd (execute_transaction rnd fr to amt u b)) ! q) = account_id (objects b ! q)"
    and "withdrawal_policy (objects (snd (execute_transaction rnd fr to amt u b)) ! q) = withdrawal_policy (objects b ! q)"
    and "fee_policy (objects (snd (execute_transaction rnd fr to amt u b)) ! q) = fee_policy (objects b ! q)"
    and "interest_rate (objects (snd (execute_transaction rnd fr to amt u b)) ! q) = interest_rate (objects b ! q)"
    and "active (objects (snd (execute_transaction rnd fr to amt u b)) ! q) = active (objects b ! q)"
proof -
  consider "amt \<le> 0" | "0 < amt" by linarith
  then have "account_id (objects (snd (execute_transaction rnd fr to amt u b)) ! q) = account_id (objects b ! q)
    \<and> withdrawal_policy (objects (snd (execute_transaction rnd fr to amt u b)) ! q) = withdrawal_policy (objects b ! q)
    \<and> fee_policy (objects (snd (execute_transaction rnd fr to amt u b)) ! q) = fee_policy (objects b ! q)
    \<and> interest_rate (objects (snd (execute_transaction rnd fr to amt u b)) ! q) = interest_rate (objects b ! q)
    \<and> active (objects (snd (execute_transaction rnd fr to amt u b)) ! q) = active (objects b ! q)"
  proof cases
    case 1
    then show ?thesis by (simp add: execute_nonpos)
  next
    case 2
    then show ?thesis using assms by (simp add: execute_object Let_def)
  qed
  then show "account_id (objects (snd (execute_transaction rnd fr to amt u b)) ! q) = account_id (objects b ! q)"
    and "withdrawal_policy (objects (snd (execute_transaction rnd fr to amt u b)) ! q) = withdrawal_policy (objects b ! q)"
    and "fee_policy (objects (snd (execute_transaction rnd fr to amt u b)) ! q) = fee_policy (objects b ! q)"
    and "interest_rate (objects (snd (execute_transaction rnd fr to amt u b)) ! q) = interest_rate (objects b ! q)"
    and "active (objects (snd (execute_transaction rnd fr to amt u b)) ! q) = active (objects b ! q)"
    by simp_all
qed

lemma bank_inv_execute:
  "bank_inv b \<Longrightarrow> bank_inv (snd (execute_transaction rnd fr to amt u b))"
  by (simp add: bank_inv_def execute_frame execute_static)

lemma bank_inv_counter: "bank_inv b \<Longrightarrow> bank_inv (b\<lparr>account_id_counter := n\<rparr>)"
  by (simp add: bank_inv_def)

lemma bank_inv_factories: "bank_inv b \<Longrightarrow> bank_inv (b\<lparr>account_factories := fs\<rparr>)"
  by (simp add: bank_inv_def)

lemma make_account_id [simp]: "account_id (make_account f aid) = aid"
  by (cases f) (simp_all add: Account_init_def SavingsAccount_init_def)

lemma make_account_fresh [simp]:
  "balance (make_account f aid) = 0" "active (make_account f aid)"
  "transactions (make_account f aid) = []"
  by (cases f; simp add: Account_init_def SavingsAccount_init_def)+

lemma bank_inv_new:
  "bank_inv b \<Longrightarrow>
   bank_inv (b\<lparr>objects := objects b @ [make_account f aid],
              accounts := (accounts b)(aid \<mapsto> length (objects b))\<rparr>)"
  unfolding bank_inv_def
  by (simp add: nth_append) (metis less_Suc_eq nat_neq_iff)

lemma bank_inv_update_object:
  assumes "bank_inv b"
    and "\<And>a. account_id (f a) = account_id a"
    and "\<And>a. withdrawal_policy (f a) = withdrawal_policy a"
    and "\<And>a. interest_rate (f a) = interest_rate a"
  shows "bank_inv (update_object r f b)"
  using assms by (auto simp: bank_inv_def update_object_nth)

lemma bank_inv_init: "bank_inv (Bank_init rnd)"
  by (simp add: bank_inv_def Bank_init_def register_account_type_def Account_init_def Let_def)

lemma can_withdraw_policy:
  "can_withdraw rnd a x \<Longrightarrow> withdrawal_policy a \<noteq> NoWithdrawalPolicy"
  by (auto simp: can_withdraw_def)

lemma snd_deposit_cash:
  "accounts b aid = Some r \<Longrightarrow> active (objects b ! r) \<Longrightarrow>
   snd (deposit_cash rnd aid amt b) = snd (execute_transaction rnd None (Some r) amt ''Bareinzahlung'' b)"
  by (auto simp: deposit_cash_def split: prod.splits sum.splits)

lemma fst_deposit_cash:
  "accounts b aid = Some r \<Longrightarrow> active (objects b ! r) \<Longrightarrow>
   fst (deposit_cash rnd aid amt b) = (0 < amt)"
  by (cases "0 < amt")
     (auto simp: deposit_cash_def execute_nonpos execute_transaction_def get_timestamp_def Let_def
        split: prod.splits sum.splits)

lemma transfer_success:
  assumes "accounts b d = Some debit" and "accounts b c = Some credit"
    and "active (objects b ! debit)" and "active (objects b ! credit)"
    and "can_withdraw rnd (objects b ! debit) (rnd (amt + calculate_fee rnd (objects b ! debit) amt))"
    and "0 < amt"
  shows "transfer rnd d c amt u b =
    (True,
     if 0 < calculate_fee rnd (objects b ! debit) amt
     then snd (execute_transaction rnd (Some debit) (Some (fee_account b))
                 (calculate_fee rnd (objects b ! debit) amt) (fee_usage u)
                 (snd (execute_transaction rnd (Some debit) (Some credit) amt u b)))
     else snd (execute_transaction rnd (Some debit) (Some credit) amt u b))"
  using assms
  by (simp add: transfer_def Let_def case_prod_beta execute_pos_fst execute_frame)

lemma transfer_failure:
  assumes "accounts b d = Some debit \<Longrightarrow> accounts b c = Some credit \<Longrightarrow>
     \<not> active (objects b ! debit) \<or> \<not> active (objects b ! credit) \<or>
     \<not> can_withdraw rnd (objects b ! debit) (rnd (amt + calculate_fee rnd (objects b ! debit) amt)) \<or>
     amt \<le> 0"
    and "accounts b d = None \<or> accounts b d = Some debit"
    and "accounts b c = None \<or> accounts b c = Some credit"
  shows "transfer rnd d c amt u b = (False, b)"
proof (cases "accounts b d")
  case None
  then show ?thesis by (simp add: transfer_def)
next
  case d: (Some debit')
  show ?thesis
  proof (cases "accounts b c")
    case None
    then show ?thesis using d by (simp add: transfer_def)
  next
    case c: (Some credit')
    have eq: "debit' = debit" "credit' = credit" using d c assms(2,3) by simp_all
    have "\<not> active (objects b ! debit) \<or> \<not> active (objects b ! credit) \<or>
     \<not> can_withdraw rnd (objects b ! debit) (rnd (amt + calculate_fee rnd (objects b ! debit) amt)) \<or>
     amt \<le> 0" using assms(1) d c eq by simp
    then show ?thesis using d c eq
      by (auto simp: transfer_def Let_def execute_nonpos)
  qed
qed

text \<open>
  Every operation is a composition of a few primitive state changes, so a property of
  banks that each primitive preserves is preserved by every operation.
\<close>

lemma step_preserves:
  assumes inv: "bank_inv b" and P: "P b"
    and exec: "\<And>b fr to amt u. bank_inv b \<Longrightarrow> P b \<Longrightarrow> 0 < amt \<Longrightarrow>
        (\<forall>r. fr = Some r \<longrightarrow> r < length (objects b) \<and>
               withdrawal_policy (objects b ! r) \<noteq> NoWithdrawalPolicy) \<Longrightarrow>
        (\<forall>r. to = Some r \<longrightarrow> r < length (objects b)) \<Longrightarrow>
        (\<not> is_self_transfer op \<longrightarrow> fr \<noteq> to) \<Longrightarrow>
        P (snd (execute_transaction rnd fr to amt u b))"
    and counter: "\<And>b n. bank_inv b \<Longrightarrow> P b \<Longrightarrow> P (b\<lparr>account_id_counter := n\<rparr>)"
    and new: "\<And>b f aid. bank_inv b \<Longrightarrow> P b \<Longrightarrow>
        (\<not> opens_fee_id op \<longrightarrow> aid \<noteq> ''FEE-0001'') \<Longrightarrow>
        P (b\<lparr>objects := objects b @ [make_account f aid],
             accounts := (accounts b)(aid \<mapsto> length (objects b))\<rparr>)"
    and reg: "\<And>b fs. bank_inv b \<Longrightarrow> P b \<Longrightarrow> P (b\<lparr>account_factories := fs\<rparr>)"
    and clos: "\<And>b r. bank_inv b \<Longrightarrow> P b \<Longrightarrow> r < length (objects b) \<Longrightarrow>
        balance (objects b ! r) = 0 \<Longrightarrow> active (objects b ! r) \<Longrightarrow>
        P (update_object r (\<lambda>a. a\<lparr>active := False\<rparr>) b)"
    and interest: "\<And>b r rate. bank_inv b \<Longrightarrow> P b \<Longrightarrow> r < length (objects b) \<Longrightarrow>
        interest_rate (objects b ! r) = Some rate \<Longrightarrow> \<not> is_ledger_operation op \<Longrightarrow>
        P (update_object r (deposit_amount rnd (rnd (balance (objects b ! r) * rate))) b)"
  shows "P (step rnd op b)"
proof (cases op)
  case (OpenAccount ty aid)
  show ?thesis
  proof (cases "account_factories b (lower ty)")
    case None
    then show ?thesis using P OpenAccount by (simp add: open_account_def)
  next
    case (Some f)
    show ?thesis
    proof (cases aid)
      case None
      let ?b1 = "b\<lparr>account_id_counter := account_id_counter b + 1\<rparr>"
      have "bank_inv ?b1" "P ?b1" using inv P counter by (simp_all add: bank_inv_counter)
      then have "P (?b1\<lparr>objects := objects ?b1 @ [make_account f (CHR ''A'' # format_06d (account_id_counter b))],
             accounts := (accounts ?b1)(CHR ''A'' # format_06d (account_id_counter b) \<mapsto> length (objects ?b1))\<rparr>)"
        by (rule new) simp
      then show ?thesis using OpenAccount Some None
        by (simp add: open_account_def generate_account_id_def Let_def)
    next
      case (Some i)
      have "P (b\<lparr>objects := objects b @ [make_account f i],
             accounts := (accounts b)(i \<mapsto> length (objects b))\<rparr>)"
        using inv P by (rule new) (simp add: OpenAccount Some)
      then show ?thesis using OpenAccount \<open>account_factories b (lower ty) = Some f\<close> Some
        by (simp add: open_account_def Let_def)
    qed
  qed
next
  case (RegisterAccountType ty f)
  then show ?thesis using reg [OF inv P] by (simp add: register_account_type_def)
next
  case (DepositCash aid amt)
  show ?thesis
  proof (cases "accounts b aid")
    case None
    then show ?thesis using P DepositCash by (simp add: deposit_cash_def)
  next
    case (Some r)
    have r: "r < length (objects b)" using inv Some by (simp add: bank_inv_def)
    show ?thesis
    proof (cases "active (objects b ! r) \<and> 0 < amt")
      case True
      then have "P (snd (execute_transaction rnd None (Some r) amt ''Bareinzahlung'' b))"
        using r by (intro exec [OF inv P]) simp_all
      then show ?thesis using DepositCash Some True
        by (simp add: snd_deposit_cash)
    next
      case False
      then show ?thesis using P DepositCash Some
        by (auto simp: deposit_cash_def execute_nonpos)
    qed
  qed
next
  case (Transfer d c amt u)
  show ?thesis
  proof (cases "fst (transfer rnd d c amt u b) \<or> snd (transfer rnd d c amt u b) \<noteq> b")
    case False
    then show ?thesis using P Transfer by simp
  next
    case True
    then obtain debit credit where
      d: "accounts b d = Some debit" and c: "accounts b c = Some credit"
      by (auto simp: transfer_def split: option.splits)
    let ?fee = "calculate_fee rnd (objects b ! debit) amt"
    have ok: "active (objects b ! debit) \<and> active (objects b ! credit) \<and>
       can_withdraw rnd (objects b ! debit) (rnd (amt + ?fee)) \<and> 0 < amt"
    proof (rule ccontr)
      assume "\<not> ?thesis"
      then have "transfer rnd d c amt u b = (False, b)"
        using d c by (intro transfer_failure [where debit = debit and credit = credit]) auto
      then show False using True by simp
    qed
    then have cw: "can_withdraw rnd (objects b ! debit) (rnd (amt + ?fee))" and pos: "0 < amt"
      by simp_all
    from inv d c have dl: "debit < length (objects b)" and cl: "credit < length (objects b)"
      and did: "account_id (objects b ! debit) = d" and cid: "account_id (objects b ! credit) = c"
      by (simp_all add: bank_inv_def)
    have pol: "withdrawal_policy (objects b ! debit) \<noteq> NoWithdrawalPolicy"
      using cw by (rule can_withdraw_policy)
    have ne: "\<not> is_self_transfer op \<longrightarrow> Some debit \<noteq> Some credit"
      using Transfer did cid by auto
    let ?b1 = "snd (execute_transaction rnd (Some debit) (Some credit) amt u b)"
    have P1: "P ?b1" using dl cl pol ne
      by (intro exec [OF inv P pos]) simp_all
    have inv1: "bank_inv ?b1" using inv by (rule bank_inv_execute)
    have nfee: "debit \<noteq> fee_account b" using pol inv by (auto simp: bank_inv_def)
    have P2: "0 < ?fee \<Longrightarrow>
       P (snd (execute_transaction rnd (Some debit) (Some (fee_account b)) ?fee (fee_usage u) ?b1))"
      using dl pol nfee inv
      by (intro exec [OF inv1 P1]) (simp_all add: execute_frame execute_static bank_inv_def)
    have res: "snd (transfer rnd d c amt u b) =
       (if 0 < ?fee
        then snd (execute_transaction rnd (Some debit) (Some (fee_account b)) ?fee (fee_usage u) ?b1)
        else ?b1)"
      using d c ok by (simp add: transfer_success)
    show ?thesis using Transfer P1 P2 by (simp add: res)
  qed
next
  case (CloseAccount aid)
  show ?thesis
  proof (cases "accounts b aid")
    case None
    then show ?thesis using P CloseAccount by (simp add: close_account_def)
  next
    case (Some r)
    have r: "r < length (objects b)" using inv Some by (simp add: bank_inv_def)
    show ?thesis
    proof (cases "active (objects b ! r) \<and> balance (objects b ! r) = 0")
      case True
      have "update_object r (\<lambda>a. snd (close a)) b = update_object r (\<lambda>a. a\<lparr>active := False\<rparr>) b"
        using True by (simp add: update_object_def close_def)
      then show ?thesis using clos [OF inv P r] True CloseAccount Some
        by (simp add: close_account_def)
    next
      case False
      then show ?thesis using P CloseAccount Some by (auto simp: close_account_def)
    qed
  qed
next
  case (ApplyInterest r)
  show ?thesis
  proof (cases "r < length (objects b)")
    case False
    then show ?thesis using P ApplyInterest by simp
  next
    case True
    show ?thesis
    proof (cases "interest_rate (objects b ! r)")
      case None
      then show ?thesis using P ApplyInterest True
        by (simp add: apply_interest_at_def apply_interest_def)
    next
      case (Some rate)
      have "update_object r (\<lambda>_. deposit_amount rnd (rnd (balance (objects b ! r) * rate)) (objects b ! r)) b
          = update_object r (deposit_amount rnd (rnd (balance (objects b ! r) * rate))) b"
        by (simp add: update_object_def)
      then show ?thesis using interest [OF inv P True Some] ApplyInterest True Some
        by (simp add: apply_interest_at_def apply_interest_def)
    qed
  qed
qed

section \<open>Reachable states\<close>

lemma bank_inv_step: "bank_inv b \<Longrightarrow> bank_inv (step rnd op b)"
proof (rule step_preserves [where P = bank_inv and op = op and b = b])
  fix b r
  show "bank_inv b \<Longrightarrow> bank_inv (update_object r (\<lambda>a. a\<lparr>active := False\<rparr>) b)"
    by (rule bank_inv_update_object) simp_all
next
  fix b r rate
  show "bank_inv b \<Longrightarrow> bank_inv (update_object r (deposit_amount rnd (rnd (balance (objects b ! r) * rate))) b)"
    by (rule bank_inv_update_object) simp_all
qed (simp_all add: bank_inv_execute bank_inv_counter bank_inv_new bank_inv_factories)

lemma run_Nil [simp]: "run rnd [] b = b"
  by (simp add: run_def)

lemma run_Cons [simp]: "run rnd (op # ops) b = run rnd ops (step rnd op b)"
  by (simp add: run_def)

lemma run_append: "run rnd (ops @ ops') b = run rnd ops' (run rnd ops b)"
  by (simp add: run_def)

lemma run_preserves:
  assumes "bank_inv b" and "P b"
    and "\<And>op b. op \<in> set ops \<Longrightarrow> bank_inv b \<Longrightarrow> P b \<Longrightarrow> P (step rnd op b)"
  shows "bank_inv (run rnd ops b) \<and> P (run rnd ops b)"
  using assms
proof (induction ops arbitrary: b)
  case Nil
  then show ?case by simp
next
  case (Cons op ops)
  have "bank_inv (step rnd op b)" using Cons.prems(1) by (rule bank_inv_step)
  moreover have "P (step rnd op b)" using Cons.prems by simp
  ultimately show ?case using Cons.IH [of "step rnd op b"] Cons.prems(3) by simp
qed

lemma bank_inv_reachable: "bank_inv (run rnd ops (Bank_init rnd))"
  using run_preserves [where P = "\<lambda>_. True" and b = "Bank_init rnd" and ops = ops] bank_inv_init
  by simp

subsection \<open>Balance and history\<close>

lemma accumulate_snoc: "accumulate rnd (xs @ [x]) = rnd (accumulate rnd xs + x)"
  by (simp add: accumulate_def)

lemma balance_matches_entry:
  "balance_matches_history rnd a \<Longrightarrow>
   balance_matches_history rnd
     (record_transaction \<lparr>entry_timestamp = t, counterparty = cp, entry_amount = x,
                          entry_usage = u\<rparr> (deposit_amount rnd x a))"
  "balance_matches_history rnd a \<Longrightarrow>
   balance_matches_history rnd
     (record_transaction \<lparr>entry_timestamp = t, counterparty = cp, entry_amount = - x,
                          entry_usage = u\<rparr> (withdraw_amount rnd x a))"
  by (simp_all add: balance_matches_history_def record_transaction_def deposit_amount_def
        withdraw_amount_def accumulate_snoc)

lemma accumulate_unrounded: "unrounded rnd xs \<Longrightarrow> accumulate rnd xs = sum_list xs"
proof (induction xs rule: rev_induct)
  case Nil
  show ?case by (simp add: accumulate_def)
next
  case (snoc x xs)
  have "unrounded rnd xs"
    unfolding unrounded_def
  proof (intro allI impI)
    fix k assume k: "k < length xs"
    then have "k < length (xs @ [x])" by simp
    then have "rnd (sum_list (take k (xs @ [x])) + (xs @ [x]) ! k) =
               sum_list (take k (xs @ [x])) + (xs @ [x]) ! k"
      using snoc.prems unfolding unrounded_def by blast
    then show "rnd (sum_list (take k xs) + xs ! k) = sum_list (take k xs) + xs ! k"
      using k by (simp add: nth_append)
  qed
  then have a: "accumulate rnd xs = sum_list xs" by (rule snoc.IH)
  have "length xs < length (xs @ [x])" by simp
  then have "rnd (sum_list (take (length xs) (xs @ [x])) + (xs @ [x]) ! length xs) =
        sum_list (take (length xs) (xs @ [x])) + (xs @ [x]) ! length xs"
    using snoc.prems unfolding unrounded_def by blast
  then have "rnd (sum_list xs + x) = sum_list xs + x" by simp
  then show ?case using a by (simp add: accumulate_snoc)
qed

lemma ledger_step_balance:
  assumes "bank_inv b" and "is_ledger_operation op"
    and "\<forall>q<length (objects b). balance_matches_history rnd (objects b ! q)"
  shows "\<forall>q<length (objects (step rnd op b)). balance_matches_history rnd (objects (step rnd op b) ! q)"
proof -
  let ?P = "\<lambda>b. \<forall>q<length (objects b). balance_matches_history rnd (objects b ! q)"
  show "?P (step rnd op b)"
  proof (rule step_preserves [where P = ?P and op = op and b = b])
    fix b :: Bank and fr to and amt :: real and u
    assume "?P b" and "0 < amt"
    then show "?P (snd (execute_transaction rnd fr to amt u b))"
      by (simp add: execute_frame execute_object Let_def balance_matches_entry)
  next
    fix b :: Bank and f aid
    assume "?P b"
    then show "?P (b\<lparr>objects := objects b @ [make_account f aid],
               accounts := (accounts b)(aid \<mapsto> length (objects b))\<rparr>)"
      by (auto simp: nth_append balance_matches_history_def accumulate_def less_Suc_eq)
  next
    fix b :: Bank and r
    assume "?P b"
    then show "?P (update_object r (\<lambda>a. a\<lparr>active := False\<rparr>) b)"
      by (simp add: update_object_nth balance_matches_history_def)
  qed (use assms in simp_all)
qed

subsection \<open>Clock, journal and histories\<close>

lemma history_timestamps_update [simp]:
  "history_timestamps (record_transaction e a) = history_timestamps a @ [entry_timestamp e]"
  "history_timestamps (withdraw_amount rnd x a) = history_timestamps a"
  "history_timestamps (deposit_amount rnd x a) = history_timestamps a"
  "history_timestamps (a\<lparr>active := v\<rparr>) = history_timestamps a"
  "history_timestamps (make_account f aid) = []"
  by (simp_all add: history_timestamps_def record_transaction_def withdraw_amount_def
        deposit_amount_def)

lemma history_ordered_cong:
  "history_timestamps a' = history_timestamps a \<Longrightarrow>
   history_ordered strict a' = history_ordered strict a"
  by (simp add: history_ordered_def)

lemma history_ordered_append:
  assumes "history_ordered strict a" and "\<forall>x\<in>set (history_timestamps a). x \<le> t"
    and "history_timestamps a' = history_timestamps a @ [t + 1]"
  shows "history_ordered strict a'"
  using assms by (auto simp: history_ordered_def sorted_wrt_append sorted_append)

lemma history_ordered_append2:
  assumes "history_ordered False a" and "\<forall>x\<in>set (history_timestamps a). x \<le> t"
    and "history_timestamps a' = history_timestamps a @ [t + 1, t + 1]"
  shows "history_ordered False a'"
  using assms by (auto simp: history_ordered_def sorted_append)

lemma clock_inv_execute:
  assumes P: "clock_inv strict b" and pos: "0 < amt" and ne: "strict \<longrightarrow> fr \<noteq> to"
  shows "clock_inv strict (snd (execute_transaction rnd fr to amt u b))"
proof -
  let ?b' = "snd (execute_transaction rnd fr to amt u b)"
  let ?t = "current_timestamp b"
  have t0: "0 \<le> ?t" and j: "map timestamp (journal b) = [1..?t]"
    using P by (simp_all add: clock_inv_def)
  have c: "current_timestamp ?b' = ?t + 1" using pos by (rule execute_clock)
  have "[1..?t + 1] = [1..?t] @ [?t + 1]" using t0 by (simp add: upto_rec2)
  then have j': "map timestamp (journal ?b') = [1..current_timestamp ?b']"
    using pos j c by (simp add: execute_journal)
  have obj: "history_ordered strict (objects ?b' ! q) \<and>
             (\<forall>x\<in>set (history_timestamps (objects ?b' ! q)). x \<le> ?t + 1)"
    if q: "q < length (objects b)" for q
  proof -
    have o: "history_ordered strict (objects b ! q)"
      and le: "\<forall>x\<in>set (history_timestamps (objects b ! q)). x \<le> ?t"
      using P q by (simp_all add: clock_inv_def)
    consider (none) "fr \<noteq> Some q" "to \<noteq> Some q"
      | (one) "(fr = Some q) \<noteq> (to = Some q)"
      | (both) "fr = Some q" "to = Some q" by blast
    then show ?thesis
    proof cases
      case none
      then have "objects ?b' ! q = objects b ! q" using pos q by (simp add: execute_object)
      then show ?thesis using o le by force
    next
      case one
      then have h: "history_timestamps (objects ?b' ! q) = history_timestamps (objects b ! q) @ [?t + 1]"
        using pos q by (auto simp: execute_object Let_def)
      have "history_ordered strict (objects ?b' ! q)"
        using o le h by (rule history_ordered_append)
      then show ?thesis using le h by force
    next
      case both
      then have ns: "\<not> strict" using ne by auto
      have h: "history_timestamps (objects ?b' ! q) =
               history_timestamps (objects b ! q) @ [?t + 1, ?t + 1]"
        using pos q both by (simp add: execute_object Let_def)
      have o': "history_ordered False (objects b ! q)" using o ns by simp
      have "history_ordered False (objects ?b' ! q)"
        using o' le h by (rule history_ordered_append2)
      then show ?thesis using le h ns by force
    qed
  qed
  show ?thesis
    unfolding clock_inv_def using t0 c j' obj by (simp add: execute_frame)
qed

lemma clock_inv_step:
  assumes "bank_inv b" and "clock_inv strict b" and "strict \<longrightarrow> \<not> is_self_transfer op"
  shows "clock_inv strict (step rnd op b)"
proof (rule step_preserves [where P = "clock_inv strict" and op = op and b = b])
  fix b :: Bank and fr to :: "nat option" and amt :: real and u
  assume "clock_inv strict b" and "0 < amt" and "\<not> is_self_transfer op \<longrightarrow> fr \<noteq> to"
  then show "clock_inv strict (snd (execute_transaction rnd fr to amt u b))"
    using assms(3) by (auto intro: clock_inv_execute)
next
  fix b :: Bank and f aid
  assume "clock_inv strict b"
  then show "clock_inv strict (b\<lparr>objects := objects b @ [make_account f aid],
               accounts := (accounts b)(aid \<mapsto> length (objects b))\<rparr>)"
    by (auto simp: clock_inv_def nth_append less_Suc_eq history_ordered_def)
next
  fix b :: Bank and r
  assume "clock_inv strict b"
  then show "clock_inv strict (update_object r (\<lambda>a. a\<lparr>active := False\<rparr>) b)"
    by (simp add: clock_inv_def update_object_nth history_ordered_def)
next
  fix b :: Bank and r rate
  assume "clock_inv strict b"
  then show "clock_inv strict (update_object r (deposit_amount rnd (rnd (balance (objects b ! r) * rate))) b)"
    by (simp add: clock_inv_def update_object_nth history_ordered_def)
qed (use assms in \<open>simp_all add: clock_inv_def\<close>)

lemma clock_inv_init: "clock_inv strict (Bank_init rnd)"
  by (simp add: clock_inv_def Bank_init_def register_account_type_def Account_init_def Let_def
        history_ordered_def history_timestamps_def)

lemma clock_inv_reachable:
  assumes "strict \<longrightarrow> (\<forall>op\<in>set ops. \<not> is_self_transfer op)"
  shows "clock_inv strict (run rnd ops (Bank_init rnd))"
  using run_preserves [where P = "clock_inv strict" and b = "Bank_init rnd" and ops = ops]
    bank_inv_init clock_inv_init clock_inv_step assms
  by blast

section \<open>Queries\<close>

lemma slice_from_zero: "slice_from 0 xs = xs"
  by (simp add: slice_from_def)

text \<open>
  C9. With \<open>count = 0\<close> the slice \<open>xs[-0:]\<close> is the whole list: \<open>get_bank_transactions\<close>
  returns the entire journal and \<open>get_account_transactions\<close> the entire history of the
  account (\<open>None\<close> for an unknown account), as the calls without a count do, and not an
  empty list.
\<close>

theorem count_zero_returns_entire_history:
  "get_bank_transactions (Some 0) b = journal b \<and>
   get_bank_transactions None b = journal b \<and>
   get_account_transactions aid (Some 0) b =
     map_option (\<lambda>r. transactions (objects b ! r)) (accounts b aid) \<and>
   get_account_transactions aid None b =
     map_option (\<lambda>r. transactions (objects b ! r)) (accounts b aid) \<and>
   get_transactions (Some 0) a = transactions a \<and>
   get_transactions None a = transactions a"
  by (simp add: get_bank_transactions_def get_account_transactions_def get_transactions_def
        slice_from_zero)

theorem count_zero_returns_entire_history_witness:
  "map timestamp (journal (run exact ops_fee (Bank_init exact))) = [1, 2, 3] \<and>
   map timestamp (get_bank_transactions (Some 0) (run exact ops_fee (Bank_init exact))) = [1, 2, 3] \<and>
   map timestamp (get_bank_transactions (Some 2) (run exact ops_fee (Bank_init exact))) = [2, 3] \<and>
   accounts (run exact ops_fee (Bank_init exact)) ''P'' = Some 1 \<and>
   map_option (map entry_amount)
     (get_account_transactions ''P'' (Some 0) (run exact ops_fee (Bank_init exact))) =
     Some [500, - 100, - 1] \<and>
   map_option (map entry_amount)
     (get_account_transactions ''P'' (Some 1) (run exact ops_fee (Bank_init exact))) =
     Some [- 1] \<and>
   get_account_transactions ''Q'' (Some 0) (run exact ops_fee (Bank_init exact)) = None"
proof -
  let ?b = "run exact ops_fee (Bank_init exact)"
  have j: "map timestamp (journal ?b) = [1, 2, 3]" by code_simp
  have j2: "map timestamp (get_bank_transactions (Some 2) ?b) = [2, 3]" by code_simp
  have p: "accounts ?b ''P'' = Some 1" by code_simp
  have q: "accounts ?b ''Q'' = None" by code_simp
  have t: "map entry_amount (transactions (objects ?b ! 1)) = [500, - 100, - 1]" by code_simp
  have t1: "map_option (map entry_amount) (get_account_transactions ''P'' (Some 1) ?b) = Some [- 1]"
    by code_simp
  show ?thesis
    using j j2 p q t t1
      count_zero_returns_entire_history [where b = ?b and aid = "''P''"]
      count_zero_returns_entire_history [where b = ?b and aid = "''Q''"]
    by simp
qed

section \<open>Opening accounts\<close>

text \<open>
  C6. \<open>open_account\<close> with a type name whose lower-cased form has no registered factory
  raises the unknown-account-type error and returns the bank as it was, so the registry
  gets no new entry.
\<close>

theorem open_account_unknown_type:
  "account_factories b (lower account_type) = None \<Longrightarrow>
   open_account account_type aid b = (Inl UnknownAccountType, b)"
  by (simp add: open_account_def)

theorem open_account_unknown_type_witness:
  "account_factories (Bank_init exact) (lower ''Gold'') = None \<and>
   open_account ''Gold'' None (Bank_init exact) = (Inl UnknownAccountType, (Bank_init exact))"
proof -
  have h: "account_factories (Bank_init exact) (lower ''Gold'') = None" by code_simp
  show ?thesis using h open_account_unknown_type [OF h, of None] by simp
qed

section \<open>Transfers\<close>

text \<open>
  C3. When the debit account's withdrawal policy denies the required total (amount plus
  fee), \<open>transfer\<close> returns failure and the bank is unchanged: both balances, both
  histories and the journal are as before.
\<close>

theorem transfer_denied_no_mutation:
  "accounts b debit_id = Some d \<Longrightarrow>
   \<not> can_withdraw rnd (objects b ! d) (rnd (amt + calculate_fee rnd (objects b ! d) amt)) \<Longrightarrow>
   transfer rnd debit_id credit_id amt use b = (False, b)"
  by (simp add: transfer_def Let_def split: option.splits)

theorem transfer_denied_no_mutation_witness:
  "accounts bank_a ''A'' = Some 1 \<and>
   withdrawal_policy (objects bank_a ! 1) = NoOverdraftPolicy \<and>
   balance (objects bank_a ! 1) = 50 \<and>
   \<not> can_withdraw exact (objects bank_a ! 1) (exact (100 + calculate_fee exact (objects bank_a ! 1) 100)) \<and>
   transfer exact ''A'' ''B'' 100 [] bank_a = (False, bank_a)"
proof -
  have h1: "accounts bank_a ''A'' = Some 1" by code_simp
  have h2: "\<not> can_withdraw exact (objects bank_a ! 1) (exact (100 + calculate_fee exact (objects bank_a ! 1) 100))"
    by code_simp
  have h3: "withdrawal_policy (objects bank_a ! 1) = NoOverdraftPolicy" by code_simp
  have h4: "balance (objects bank_a ! 1) = 50" by code_simp
  show ?thesis using h1 h2 h3 h4 transfer_denied_no_mutation [OF h1 h2] by simp
qed

section \<open>Invariants\<close>

text \<open>
  C1 (as amended). After every sequence of ledger operations (\<open>open_account\<close>,
  \<open>register_account_type\<close>, \<open>deposit_cash\<close>, \<open>transfer\<close>, \<open>close_account\<close>), with
  amounts that are numbers and no overflow, the balance of every account object is what
  adding up the entry amounts of its history gives, from zero, in order, with the
  floating-point addition the code itself uses; so it equals their exact sum whenever
  none of these additions rounds. \<open>SavingsAccount.apply_interest\<close> is excluded: it adds
  balance times rate to the balance and records no entry.
\<close>

theorem ledger_balance_matches_history:
  assumes "\<forall>op\<in>set ops. is_ledger_operation op"
    and "q < length (objects (run rnd ops (Bank_init rnd)))"
  shows "balance_matches_history rnd (objects (run rnd ops (Bank_init rnd)) ! q) \<and>
         (unrounded rnd (map entry_amount (transactions (objects (run rnd ops (Bank_init rnd)) ! q)))
          \<longrightarrow> balance (objects (run rnd ops (Bank_init rnd)) ! q) =
              sum_list (map entry_amount (transactions (objects (run rnd ops (Bank_init rnd)) ! q))))"
proof -
  let ?P = "\<lambda>b. \<forall>q<length (objects b). balance_matches_history rnd (objects b ! q)"
  have "?P (Bank_init rnd)"
    by (simp add: Bank_init_def register_account_type_def Account_init_def Let_def
          balance_matches_history_def accumulate_def)
  then have "bank_inv (run rnd ops (Bank_init rnd)) \<and> ?P (run rnd ops (Bank_init rnd))"
    using bank_inv_init assms(1)
    by (intro run_preserves [where P = ?P]) (simp_all add: ledger_step_balance)
  then have m: "balance_matches_history rnd (objects (run rnd ops (Bank_init rnd)) ! q)"
    using assms(2) by simp
  then show ?thesis
    by (simp add: balance_matches_history_def accumulate_unrounded)
qed

theorem ledger_balance_matches_history_witness:
  "2 < length (objects (run exact ops_fee (Bank_init exact))) \<and>
   balance_matches_history exact (objects (run exact ops_fee (Bank_init exact)) ! 1) \<and>
   balance (objects (run exact ops_fee (Bank_init exact)) ! 1) = 399 \<and>
   sum_list (map entry_amount (transactions (objects (run exact ops_fee (Bank_init exact)) ! 1)))
     = 399 \<and>
   balance_matches_history exact (objects (run exact ops_fee (Bank_init exact)) ! 2) \<and>
   balance (objects (run exact ops_fee (Bank_init exact)) ! 2) = 100"
proof -
  have h1: "\<forall>op\<in>set ops_fee. is_ledger_operation op" by (simp add: ops_fee_def)
  have h2: "2 < length (objects (run exact ops_fee (Bank_init exact)))" by code_simp
  then have h3: "1 < length (objects (run exact ops_fee (Bank_init exact)))" by simp
  have u: "unrounded exact xs" for xs by (simp add: unrounded_def exact_def)
  have v1: "balance (objects (run exact ops_fee (Bank_init exact)) ! 1) = 399" by code_simp
  have v2: "balance (objects (run exact ops_fee (Bank_init exact)) ! 2) = 100" by code_simp
  show ?thesis
    using h2 u v1 v2 ledger_balance_matches_history [OF h1 h2]
      ledger_balance_matches_history [OF h1 h3] by simp
qed

text \<open>
  C1 as stated fails: after opening a savings account, depositing 1000 and applying the
  interest of 1 percent, the balance is 1010 while the one recorded entry is 1000, however
  the entries are added up.
\<close>

theorem apply_interest_breaks_balance_invariant:
  "balance (objects bank_interest ! 1) = 1010 \<and>
   map entry_amount (transactions (objects bank_interest ! 1)) = [1000] \<and>
   sum_list (map entry_amount (transactions (objects bank_interest ! 1))) = 1000 \<and>
   \<not> balance_matches_history exact (objects bank_interest ! 1)"
  by code_simp

text \<open>
  Rounding is followed by the model. Depositing \<open>1e16\<close> and then \<open>1.0\<close> and transferring
  \<open>1e16\<close> away leaves the balance \<open>0.0\<close>, which is what adding up the three entries
  in floating point gives, although their exact sum is 1; the account can then be closed.
\<close>

lemma rounded_balance_differs_from_exact_sum:
  "balance (objects (run round_1e16 ops_rounding (Bank_init round_1e16)) ! 1) = 0 \<and>
   map entry_amount
     (transactions (objects (run round_1e16 ops_rounding (Bank_init round_1e16)) ! 1)) =
     [10000000000000000, 1, - 10000000000000000] \<and>
   balance_matches_history round_1e16
     (objects (run round_1e16 ops_rounding (Bank_init round_1e16)) ! 1) \<and>
   sum_list (map entry_amount
     (transactions (objects (run round_1e16 ops_rounding (Bank_init round_1e16)) ! 1))) = 1 \<and>
   fst (close_account ''A'' (run round_1e16 ops_rounding (Bank_init round_1e16)))"
  by code_simp

text \<open>
  C2 (as amended). The clock starts at 0 and every executed transaction increments it
  exactly once (a rejected one leaves it alone); the journal carries the timestamps
  1, 2, ... up to the clock, so they strictly increase and never repeat; within the
  history of one account timestamps never decrease, and they strictly increase when no
  transfer names the same account as debit and credit.
\<close>

theorem timestamps_increasing:
  "current_timestamp (Bank_init rnd) = 0 \<and>
   current_timestamp (snd (execute_transaction rnd fr to amt u b)) =
     (if 0 < amt then current_timestamp b + 1 else current_timestamp b) \<and>
   map timestamp (journal (run rnd ops (Bank_init rnd))) = [1..current_timestamp (run rnd ops (Bank_init rnd))] \<and>
   sorted_wrt (<) (map timestamp (journal (run rnd ops (Bank_init rnd)))) \<and>
   (\<forall>a\<in>set (objects (run rnd ops (Bank_init rnd))). sorted (history_timestamps a)) \<and>
   ((\<forall>op\<in>set ops. \<not> is_self_transfer op) \<longrightarrow>
      (\<forall>a\<in>set (objects (run rnd ops (Bank_init rnd))). sorted_wrt (<) (history_timestamps a)))"
proof -
  let ?b = "run rnd ops (Bank_init rnd)"
  have c0: "current_timestamp (Bank_init rnd) = 0"
    by (simp add: Bank_init_def register_account_type_def Let_def)
  have ex: "current_timestamp (snd (execute_transaction rnd fr to amt u b)) =
     (if 0 < amt then current_timestamp b + 1 else current_timestamp b)"
    by (simp add: execute_clock execute_nonpos)
  have weak: "clock_inv False ?b" by (rule clock_inv_reachable) simp
  then have j: "map timestamp (journal ?b) = [1..current_timestamp ?b]"
    by (simp add: clock_inv_def)
  have js: "sorted_wrt (<) (map timestamp (journal ?b))"
    unfolding j by (simp add: strict_sorted_iff)
  have w: "\<forall>a\<in>set (objects ?b). sorted (history_timestamps a)"
    using weak by (auto simp: clock_inv_def history_ordered_def in_set_conv_nth)
  have s: "\<forall>a\<in>set (objects ?b). sorted_wrt (<) (history_timestamps a)"
    if "\<forall>op\<in>set ops. \<not> is_self_transfer op"
  proof -
    have "clock_inv True ?b" using that by (intro clock_inv_reachable) simp
    then show ?thesis by (auto simp: clock_inv_def history_ordered_def in_set_conv_nth)
  qed
  show ?thesis using c0 ex j js w s by blast
qed

theorem timestamps_increasing_witness:
  "map history_timestamps (objects (run exact ops_fee (Bank_init exact))) = [[3], [1, 2, 3], [2]] \<and>
   sorted (history_timestamps (objects (run exact ops_fee (Bank_init exact)) ! 1)) \<and>
   sorted_wrt (<) (history_timestamps (objects (run exact ops_fee (Bank_init exact)) ! 1)) \<and>
   map timestamp (journal (run exact ops_fee (Bank_init exact))) = [1, 2, 3]"
proof -
  have h: "\<forall>op\<in>set ops_fee. \<not> is_self_transfer op" by (simp add: ops_fee_def)
  have v: "map history_timestamps (objects (run exact ops_fee (Bank_init exact))) = [[3], [1, 2, 3], [2]]"
    by code_simp
  have j: "map timestamp (journal (run exact ops_fee (Bank_init exact))) = [1, 2, 3]" by code_simp
  have "1 < length (objects (run exact ops_fee (Bank_init exact)))" by code_simp
  then have m: "objects (run exact ops_fee (Bank_init exact)) ! 1 \<in> set (objects (run exact ops_fee (Bank_init exact)))"
    by (rule nth_mem)
  show ?thesis
    using h v j m timestamps_increasing [where ops = ops_fee] by blast
qed

text \<open>
  C2 as stated fails: a transfer from an account to itself records its debit entry and its
  credit entry, both with the one timestamp of the transaction, in the same history.
\<close>

theorem self_transfer_repeats_timestamp:
  "history_timestamps (objects bank_self ! 1) = [1, 2, 2] \<and>
   \<not> sorted_wrt (<) (history_timestamps (objects bank_self ! 1))"
  by code_simp

section \<open>Cash deposits\<close>

lemma get_balance_execute:
  "get_balance aid (snd (execute_transaction rnd fr to amt u b)) =
   map_option (\<lambda>r. balance (objects (snd (execute_transaction rnd fr to amt u b)) ! r)) (accounts b aid)"
  by (simp add: get_balance_def execute_frame)

text \<open>
  C7 (as amended). \<open>deposit_cash\<close> returns failure and changes nothing when the account is
  unknown, when it is inactive, and when the amount is not positive. Otherwise it returns
  success, credits the account by the amount and appends exactly one journal Transaction,
  with no source account and the memo \<open>Bareinzahlung\<close>.
\<close>

theorem deposit_cash_behaviour:
  "(accounts b aid = None \<longrightarrow> deposit_cash rnd aid amt b = (False, b)) \<and>
   (\<forall>r. accounts b aid = Some r \<and> \<not> active (objects b ! r) \<longrightarrow>
        deposit_cash rnd aid amt b = (False, b)) \<and>
   (\<forall>r. accounts b aid = Some r \<and> active (objects b ! r) \<and> amt \<le> 0 \<longrightarrow>
        deposit_cash rnd aid amt b = (False, b)) \<and>
   (\<forall>r. accounts b aid = Some r \<and> active (objects b ! r) \<and> 0 < amt \<and> r < length (objects b) \<longrightarrow>
        fst (deposit_cash rnd aid amt b) = True \<and>
        journal (snd (deposit_cash rnd aid amt b)) =
          journal b @ [\<lparr>timestamp = current_timestamp b + 1, from_account = None,
                        to_account = Some (account_id (objects b ! r)), amount = amt,
                        usage = ''Bareinzahlung''\<rparr>] \<and>
        balance (objects (snd (deposit_cash rnd aid amt b)) ! r) = rnd (balance (objects b ! r) + amt) \<and>
        get_balance aid (snd (deposit_cash rnd aid amt b)) = Some (rnd (balance (objects b ! r) + amt)))"
proof -
  have 1: "accounts b aid = None \<longrightarrow> deposit_cash rnd aid amt b = (False, b)"
    by (simp add: deposit_cash_def)
  have 2: "\<forall>r. accounts b aid = Some r \<and> \<not> active (objects b ! r) \<longrightarrow>
        deposit_cash rnd aid amt b = (False, b)"
    by (simp add: deposit_cash_def)
  have 3: "\<forall>r. accounts b aid = Some r \<and> active (objects b ! r) \<and> amt \<le> 0 \<longrightarrow>
        deposit_cash rnd aid amt b = (False, b)"
    by (simp add: deposit_cash_def execute_nonpos)
  have 4: "fst (deposit_cash rnd aid amt b) = True \<and>
        journal (snd (deposit_cash rnd aid amt b)) =
          journal b @ [\<lparr>timestamp = current_timestamp b + 1, from_account = None,
                        to_account = Some (account_id (objects b ! r)), amount = amt,
                        usage = ''Bareinzahlung''\<rparr>] \<and>
        balance (objects (snd (deposit_cash rnd aid amt b)) ! r) = rnd (balance (objects b ! r) + amt) \<and>
        get_balance aid (snd (deposit_cash rnd aid amt b)) = Some (rnd (balance (objects b ! r) + amt))"
    if h: "accounts b aid = Some r" "active (objects b ! r)" "0 < amt" "r < length (objects b)" for r
  proof -
    have s: "snd (deposit_cash rnd aid amt b) =
             snd (execute_transaction rnd None (Some r) amt ''Bareinzahlung'' b)"
      using h(1,2) by (rule snd_deposit_cash)
    have f: "fst (deposit_cash rnd aid amt b) = True"
      using h by (simp add: fst_deposit_cash)
    have bal: "balance (objects (snd (execute_transaction rnd None (Some r) amt ''Bareinzahlung'' b)) ! r)
               = rnd (balance (objects b ! r) + amt)"
      using h(3,4)
      by (simp add: execute_object record_transaction_def deposit_amount_def Let_def)
    show ?thesis
      using f bal h(1,3)
      by (simp add: s execute_journal id_of_def get_balance_execute)
  qed
  show ?thesis using 1 2 3 4 by blast
qed

theorem deposit_cash_behaviour_witness:
  "accounts bank_youth ''A'' = Some 1 \<and> active (objects bank_youth ! 1) \<and>
   1 < length (objects bank_youth) \<and> get_balance ''A'' bank_youth = Some 0 \<and>
   journal bank_youth = [] \<and>
   fst (deposit_cash exact ''A'' 100 bank_youth) = True \<and>
   journal (snd (deposit_cash exact ''A'' 100 bank_youth)) =
     [\<lparr>timestamp = 1, from_account = None, to_account = Some ''A'', amount = 100,
       usage = ''Bareinzahlung''\<rparr>] \<and>
   get_balance ''A'' (snd (deposit_cash exact ''A'' 100 bank_youth)) = Some 100 \<and>
   deposit_cash exact ''A'' (- 5) bank_youth = (False, bank_youth) \<and>
   deposit_cash exact ''B'' 100 bank_youth = (False, bank_youth)"
proof -
  have h1: "accounts bank_youth ''A'' = Some 1" by code_simp
  have h2: "active (objects bank_youth ! 1)" by code_simp
  have h3: "1 < length (objects bank_youth)" by code_simp
  have h4: "get_balance ''A'' bank_youth = Some 0" by code_simp
  have h5: "journal bank_youth = []" by code_simp
  have h6: "current_timestamp bank_youth = 0" by code_simp
  have h7: "account_id (objects bank_youth ! 1) = ''A''" by code_simp
  have h8: "balance (objects bank_youth ! 1) = 0" by code_simp
  have h9: "accounts bank_youth ''B'' = None" by code_simp
  show ?thesis
    using h1 h2 h3 h4 h5 h6 h7 h8 h9
      deposit_cash_behaviour [where rnd = exact and b = bank_youth and aid = "''A''" and amt = 100]
      deposit_cash_behaviour [where rnd = exact and b = bank_youth and aid = "''A''" and amt = "- 5"]
      deposit_cash_behaviour [where rnd = exact and b = bank_youth and aid = "''B''" and amt = 100]
    by (simp add: exact_def)
qed

text \<open>
  C7 as stated fails in the memo only: the journal record of a cash deposit carries the
  memo \<open>Bareinzahlung\<close>, not \<open>cash deposit\<close>.
\<close>

theorem cash_deposit_memo:
  "fst (deposit_cash exact ''A'' 100 bank_youth) = True \<and>
   map usage (journal (snd (deposit_cash exact ''A'' 100 bank_youth))) = [''Bareinzahlung''] \<and>
   ''Bareinzahlung'' \<noteq> ''cash deposit''"
  by code_simp

section \<open>Closing accounts and reusing identifiers\<close>

lemma inactive_step:
  assumes "bank_inv b" and "r < length (objects b) \<and> \<not> active (objects b ! r)"
  shows "r < length (objects (step rnd op b)) \<and> \<not> active (objects (step rnd op b) ! r)"
proof -
  let ?P = "\<lambda>b. r < length (objects b) \<and> \<not> active (objects b ! r)"
  show "?P (step rnd op b)"
  proof (rule step_preserves [where P = ?P and op = op and b = b])
    fix b :: Bank and fr to :: "nat option" and amt :: real and u
    assume "?P b"
    then show "?P (snd (execute_transaction rnd fr to amt u b))"
      by (simp add: execute_frame execute_static)
  next
    fix b :: Bank and f aid
    assume "?P b"
    then show "?P (b\<lparr>objects := objects b @ [make_account f aid],
               accounts := (accounts b)(aid \<mapsto> length (objects b))\<rparr>)"
      by (simp add: nth_append)
  next
    fix b :: Bank and q
    assume "?P b"
    then show "?P (update_object q (\<lambda>a. a\<lparr>active := False\<rparr>) b)"
      by (auto simp: update_object_nth)
  next
    fix b :: Bank and q rate
    assume "?P b"
    then show "?P (update_object q (deposit_amount rnd (rnd (balance (objects b ! q) * rate))) b)"
      by (auto simp: update_object_nth)
  qed (use assms in simp_all)
qed

lemma inactive_run:
  assumes "bank_inv b" and "r < length (objects b)" and "\<not> active (objects b ! r)"
  shows "r < length (objects (run rnd ops b)) \<and> \<not> active (objects (run rnd ops b) ! r)"
proof -
  let ?P = "\<lambda>b. r < length (objects b) \<and> \<not> active (objects b ! r)"
  have "bank_inv (run rnd ops b) \<and> ?P (run rnd ops b)"
  proof (rule run_preserves [where P = ?P])
    show "bank_inv b" by (rule assms(1))
    show "?P b" using assms(2,3) by simp
    show "?P (step rnd op b)" if "bank_inv b" and "?P b" for op b
      using that by (rule inactive_step)
  qed
  then show ?thesis by simp
qed

lemma close_account_inactive:
  "accounts b aid = Some r \<Longrightarrow> \<not> active (objects b ! r) \<Longrightarrow> close_account aid b = (False, b)"
  by (simp add: close_account_def)

lemma close_account_success:
  assumes "accounts b aid = Some r" and "active (objects b ! r)" and "balance (objects b ! r) = 0"
  shows "close_account aid b = (True, update_object r (\<lambda>a. a\<lparr>active := False\<rparr>) b)"
  using assms by (simp add: close_account_def close_def update_object_def)

text \<open>
  C8. In a well-formed bank (every reachable one, by \<open>bank_inv_reachable\<close>)
  \<open>close_account\<close> returns failure and changes nothing, the active flag included, when the
  account is unknown, inactive or has a balance other than zero. On an active account with
  balance zero it returns success and sets the account inactive; the account object then
  stays inactive through every later sequence of operations, and every later
  \<open>close_account\<close> that reaches this account returns failure and changes nothing.
\<close>

theorem close_account_behaviour:
  assumes "bank_inv b"
  shows "(accounts b aid = None \<longrightarrow> close_account aid b = (False, b)) \<and>
   (\<forall>r. accounts b aid = Some r \<and> (\<not> active (objects b ! r) \<or> balance (objects b ! r) \<noteq> 0) \<longrightarrow>
        close_account aid b = (False, b)) \<and>
   (\<forall>r. accounts b aid = Some r \<and> active (objects b ! r) \<and> balance (objects b ! r) = 0 \<longrightarrow>
        fst (close_account aid b) = True \<and>
        \<not> active (objects (snd (close_account aid b)) ! r) \<and>
        close_account aid (snd (close_account aid b)) = (False, snd (close_account aid b)) \<and>
        (\<forall>ops. \<not> active (objects (run rnd ops (snd (close_account aid b))) ! r) \<and>
               (accounts (run rnd ops (snd (close_account aid b))) aid = Some r \<longrightarrow>
                close_account aid (run rnd ops (snd (close_account aid b))) =
                  (False, run rnd ops (snd (close_account aid b))))))"
proof -
  have 1: "accounts b aid = None \<longrightarrow> close_account aid b = (False, b)"
    by (simp add: close_account_def)
  have 2: "\<forall>r. accounts b aid = Some r \<and> (\<not> active (objects b ! r) \<or> balance (objects b ! r) \<noteq> 0) \<longrightarrow>
        close_account aid b = (False, b)"
    by (auto simp: close_account_def)
  have 3: "fst (close_account aid b) = True \<and>
        \<not> active (objects (snd (close_account aid b)) ! r) \<and>
        close_account aid (snd (close_account aid b)) = (False, snd (close_account aid b)) \<and>
        (\<forall>ops. \<not> active (objects (run rnd ops (snd (close_account aid b))) ! r) \<and>
               (accounts (run rnd ops (snd (close_account aid b))) aid = Some r \<longrightarrow>
                close_account aid (run rnd ops (snd (close_account aid b))) =
                  (False, run rnd ops (snd (close_account aid b)))))"
    if h: "accounts b aid = Some r" "active (objects b ! r)" "balance (objects b ! r) = 0" for r
  proof -
    let ?b' = "update_object r (\<lambda>a. a\<lparr>active := False\<rparr>) b"
    have c: "close_account aid b = (True, ?b')" using h by (rule close_account_success)
    have r: "r < length (objects b)" using assms h(1) by (simp add: bank_inv_def)
    have len': "r < length (objects ?b')" using r by simp
    have ina: "\<not> active (objects ?b' ! r)" using r by (simp add: update_object_nth)
    have acc: "accounts ?b' aid = Some r" using h(1) by simp
    have "bank_inv (step rnd (CloseAccount aid) b)" using assms by (rule bank_inv_step)
    then have inv': "bank_inv ?b'" using c by simp
    have again: "close_account aid ?b' = (False, ?b')"
      using acc ina by (rule close_account_inactive)
    have later: "\<not> active (objects (run rnd ops ?b') ! r) \<and>
               (accounts (run rnd ops ?b') aid = Some r \<longrightarrow>
                close_account aid (run rnd ops ?b') = (False, run rnd ops ?b'))" for ops
      using inactive_run [OF inv' len' ina, where ops = ops and rnd = rnd] close_account_inactive by blast
    show ?thesis using ina again later by (simp add: c)
  qed
  show ?thesis using 1 2 3 by blast
qed

theorem close_account_behaviour_witness:
  "accounts bank_youth ''A'' = Some 1 \<and> active (objects bank_youth ! 1) \<and>
   balance (objects bank_youth ! 1) = 0 \<and>
   fst (close_account ''A'' bank_youth) = True \<and>
   \<not> active (objects (snd (close_account ''A'' bank_youth)) ! 1) \<and>
   close_account ''A'' (snd (close_account ''A'' bank_youth)) =
     (False, snd (close_account ''A'' bank_youth)) \<and>
   balance (objects bank_a ! 1) = 50 \<and> active (objects bank_a ! 1) \<and>
   close_account ''A'' bank_a = (False, bank_a) \<and>
   close_account ''Z'' bank_a = (False, bank_a)"
proof -
  have i1: "bank_inv bank_youth" unfolding bank_youth_def by (rule bank_inv_reachable)
  have i2: "bank_inv bank_a" unfolding bank_a_def by (rule bank_inv_reachable)
  have h1: "accounts bank_youth ''A'' = Some 1" by code_simp
  have h2: "active (objects bank_youth ! 1)" by code_simp
  have h3: "balance (objects bank_youth ! 1) = 0" by code_simp
  have h4: "accounts bank_a ''A'' = Some 1" by code_simp
  have h5: "balance (objects bank_a ! 1) = 50" by code_simp
  have h6: "active (objects bank_a ! 1)" by code_simp
  have h7: "accounts bank_a ''Z'' = None" by code_simp
  show ?thesis
    using h1 h2 h3 h4 h5 h6 h7
      close_account_behaviour [OF i1, where aid = "''A''" and rnd = exact]
      close_account_behaviour [OF i2, where aid = "''A''" and rnd = exact]
      close_account_behaviour [OF i2, where aid = "''Z''" and rnd = exact]
    by simp
qed

text \<open>
  C10. \<open>open_account\<close> with a registered type and an explicit identifier that is already
  in the registry returns the new account, with no error: the registry entry of that
  identifier now points to a new object, different from the old one, which carries the
  identifier, has balance zero, is active and has an empty history. This holds for the
  identifier \<open>FEE-0001\<close> of the fee-collection account as well.
\<close>

theorem open_account_existing_id:
  assumes "bank_inv b" and "account_factories b (lower account_type) = Some f"
    and "accounts b aid = Some old"
  shows "open_account account_type (Some aid) b =
           (Inr (length (objects b)),
            b\<lparr>objects := objects b @ [make_account f aid],
              accounts := (accounts b)(aid \<mapsto> length (objects b))\<rparr>) \<and>
         length (objects b) \<noteq> old \<and>
         account_id (make_account f aid) = aid \<and>
         balance (make_account f aid) = 0 \<and>
         active (make_account f aid) \<and>
         transactions (make_account f aid) = []"
proof -
  have "old < length (objects b)" using assms(1,3) by (simp add: bank_inv_def)
  then show ?thesis using assms(2) by (simp add: open_account_def Let_def)
qed

theorem open_account_existing_id_witness:
  "accounts (Bank_init exact) ''FEE-0001'' = Some 0 \<and>
   fst (open_account ''Private'' (Some ''FEE-0001'') (Bank_init exact)) = Inr 1 \<and>
   accounts (snd (open_account ''Private'' (Some ''FEE-0001'') (Bank_init exact))) ''FEE-0001'' = Some 1 \<and>
   fee_account (snd (open_account ''Private'' (Some ''FEE-0001'') (Bank_init exact))) = 0 \<and>
   balance (objects (snd (open_account ''Private'' (Some ''FEE-0001'') (Bank_init exact))) ! 1) = 0 \<and>
   active (objects (snd (open_account ''Private'' (Some ''FEE-0001'') (Bank_init exact))) ! 1)"
proof -
  have h1: "account_factories (Bank_init exact) (lower ''Private'') =
            Some (AccountFactory (OverdraftPolicy 500) (PercentageFeePolicy (1 / 100)))"
    by code_simp
  have h2: "accounts (Bank_init exact) ''FEE-0001'' = Some 0" by code_simp
  have h3: "length (objects (Bank_init exact)) = 1" by code_simp
  have h4: "fee_account (Bank_init exact) = 0" by code_simp
  show ?thesis
    using h2 h3 h4 open_account_existing_id [OF bank_inv_init h1 h2]
    by (simp add: nth_append)
qed

section \<open>Transfers with a fee\<close>

lemma transfer_true_cases:
  assumes "fst (transfer rnd d c amt u b)"
  obtains debit credit where "accounts b d = Some debit" and "accounts b c = Some credit"
    and "active (objects b ! debit)" and "active (objects b ! credit)"
    and "can_withdraw rnd (objects b ! debit)
           (rnd (amt + calculate_fee rnd (objects b ! debit) amt))"
    and "0 < amt"
proof -
  from assms obtain debit credit where
    d: "accounts b d = Some debit" and c: "accounts b c = Some credit"
    by (auto simp: transfer_def split: option.splits)
  have "active (objects b ! debit) \<and> active (objects b ! credit) \<and>
       can_withdraw rnd (objects b ! debit)
         (rnd (amt + calculate_fee rnd (objects b ! debit) amt)) \<and> 0 < amt"
  proof (rule ccontr)
    assume "\<not> ?thesis"
    then have "transfer rnd d c amt u b = (False, b)"
      using d c by (intro transfer_failure [where debit = debit and credit = credit]) auto
    then show False using assms by simp
  qed
  then show ?thesis using that d c by blast
qed

text \<open>
  C4 (as amended). In a well-formed bank, a successful transfer of 100 from an account with
  the 1 percent fee policy (rate \<open>0.01\<close>, for which \<open>100 * 0.01\<close> is \<open>1.0\<close> in binary64)
  to a different account appends exactly two Transactions to the journal, one of 100 to the
  destination and one of 1 to \<open>FEE-0001\<close>, and takes 100 and then 1 from the balance of
  the debit account: exactly 101 when neither subtraction rounds.
\<close>

theorem transfer_with_fee:
  assumes inv: "bank_inv b"
    and d: "accounts b d = Some debit"
    and fp: "fee_policy (objects b ! debit) = PercentageFeePolicy (rnd (1 / 100))"
    and one: "rnd (100 * rnd (1 / 100)) = 1"
    and ne: "d \<noteq> c"
    and ok: "fst (transfer rnd d c 100 u b) = True"
  shows "journal (snd (transfer rnd d c 100 u b)) =
           journal b @
           [\<lparr>timestamp = current_timestamp b + 1, from_account = Some d, to_account = Some c,
             amount = 100, usage = u\<rparr>,
            \<lparr>timestamp = current_timestamp b + 2, from_account = Some d,
             to_account = Some ''FEE-0001'', amount = 1, usage = fee_usage u\<rparr>] \<and>
         balance (objects (snd (transfer rnd d c 100 u b)) ! debit) =
           rnd (rnd (balance (objects b ! debit) - 100) - 1) \<and>
         (rnd (balance (objects b ! debit) - 100) = balance (objects b ! debit) - 100 \<and>
          rnd (balance (objects b ! debit) - 101) = balance (objects b ! debit) - 101 \<longrightarrow>
          balance (objects (snd (transfer rnd d c 100 u b)) ! debit) =
            balance (objects b ! debit) - 101)"
proof -
  from ok have "fst (transfer rnd d c 100 u b)" by simp
  then obtain debit' credit where d': "accounts b d = Some debit'"
    and c: "accounts b c = Some credit"
    and act: "active (objects b ! debit')" "active (objects b ! credit)"
    and cw': "can_withdraw rnd (objects b ! debit')
                (rnd (100 + calculate_fee rnd (objects b ! debit') 100))"
    by (rule transfer_true_cases)
  have eq: "debit' = debit" using d d' by simp
  have cw: "can_withdraw rnd (objects b ! debit)
              (rnd (100 + calculate_fee rnd (objects b ! debit) 100))"
    using cw' eq by simp
  have fee: "calculate_fee rnd (objects b ! debit) 100 = 1"
    using fp one by (simp add: calculate_fee_def)
  let ?fee_ref = "fee_account b"
  let ?b1 = "snd (execute_transaction rnd (Some debit) (Some credit) 100 u b)"
  let ?b2 = "snd (execute_transaction rnd (Some debit) (Some ?fee_ref) 1 (fee_usage u) ?b1)"
  have res: "snd (transfer rnd d c 100 u b) = ?b2"
    using transfer_success [OF d c, where amt = 100 and u = u and rnd = rnd] act cw eq fee
    by simp
  have dl: "debit < length (objects b)" and did: "account_id (objects b ! debit) = d"
    using inv d by (simp_all add: bank_inv_def)
  have cl: "credit < length (objects b)" and cid: "account_id (objects b ! credit) = c"
    using inv c by (simp_all add: bank_inv_def)
  have fl: "?fee_ref < length (objects b)"
    and fid: "account_id (objects b ! ?fee_ref) = ''FEE-0001''"
    and fpol: "withdrawal_policy (objects b ! ?fee_ref) = NoWithdrawalPolicy"
    using inv by (simp_all add: bank_inv_def)
  have dc: "debit \<noteq> credit" using did cid ne by auto
  have df: "debit \<noteq> ?fee_ref" using cw fpol by (auto simp: can_withdraw_def)
  have j1: "journal ?b1 = journal b @
      [\<lparr>timestamp = current_timestamp b + 1, from_account = Some d, to_account = Some c,
        amount = 100, usage = u\<rparr>]"
    using did cid by (simp add: execute_journal id_of_def)
  have id1: "id_of ?b1 (Some debit) = Some d" "id_of ?b1 (Some ?fee_ref) = Some ''FEE-0001''"
    using dl fl did fid by (simp_all add: id_of_def execute_static)
  have t1: "current_timestamp ?b1 = current_timestamp b + 1"
    by (simp add: execute_clock)
  have j2: "journal ?b2 = journal ?b1 @
      [\<lparr>timestamp = current_timestamp b + 2, from_account = Some d,
        to_account = Some ''FEE-0001'', amount = 1, usage = fee_usage u\<rparr>]"
    using id1 t1 by (simp add: execute_journal)
  have b1: "balance (objects ?b1 ! debit) = rnd (balance (objects b ! debit) - 100)"
    using dl dc
    by (simp add: execute_object Let_def record_transaction_def withdraw_amount_def)
  have dl1: "debit < length (objects ?b1)" using dl by (simp add: execute_frame)
  have b2: "balance (objects ?b2 ! debit) = rnd (balance (objects ?b1 ! debit) - 1)"
    using dl1 df
    by (simp add: execute_object Let_def record_transaction_def withdraw_amount_def)
  have bal: "balance (objects ?b2 ! debit) = rnd (rnd (balance (objects b ! debit) - 100) - 1)"
    using b1 b2 by simp
  have ex: "balance (objects ?b2 ! debit) = balance (objects b ! debit) - 101"
    if "rnd (balance (objects b ! debit) - 100) = balance (objects b ! debit) - 100"
      and "rnd (balance (objects b ! debit) - 101) = balance (objects b ! debit) - 101"
  proof -
    have "balance (objects b ! debit) - 100 - 1 = balance (objects b ! debit) - 101" by simp
    then show ?thesis using bal that by simp
  qed
  show ?thesis using j1 j2 bal ex by (simp add: res)
qed

theorem transfer_with_fee_witness:
  "accounts bank_private ''P'' = Some 1 \<and>
   balance (objects bank_private ! 1) = 500 \<and>
   fst (transfer exact ''P'' ''Y'' 100 ''rent'' bank_private) = True \<and>
   journal (snd (transfer exact ''P'' ''Y'' 100 ''rent'' bank_private)) =
     journal bank_private @
     [\<lparr>timestamp = 2, from_account = Some ''P'', to_account = Some ''Y'', amount = 100,
       usage = ''rent''\<rparr>,
      \<lparr>timestamp = 3, from_account = Some ''P'', to_account = Some ''FEE-0001'', amount = 1,
       usage = fee_usage ''rent''\<rparr>] \<and>
   balance (objects (snd (transfer exact ''P'' ''Y'' 100 ''rent'' bank_private)) ! 1) = 399"
proof -
  have i: "bank_inv bank_private" unfolding bank_private_def by (rule bank_inv_reachable)
  have h1: "accounts bank_private ''P'' = Some 1" by code_simp
  have h2: "fee_policy (objects bank_private ! 1) = PercentageFeePolicy (exact (1 / 100))"
    by code_simp
  have h3: "exact (100 * exact (1 / 100)) = 1" by (simp add: exact_def)
  have h4: "''P'' \<noteq> ''Y''" by simp
  have h5: "fst (transfer exact ''P'' ''Y'' 100 ''rent'' bank_private) = True" by code_simp
  have h6: "balance (objects bank_private ! 1) = 500" by code_simp
  have h7: "current_timestamp bank_private = 1" by code_simp
  show ?thesis
    using h1 h5 h6 h7 transfer_with_fee [OF i h1 h2 h3 h4 h5] by (simp add: exact_def)
qed

text \<open>
  C4 as stated fails when the account is its own destination: the 100 taken from the
  balance is credited back to it, so a successful transfer costs the account the fee only.
\<close>

theorem self_transfer_costs_only_fee:
  "fee_policy (objects bank_private ! 1) = PercentageFeePolicy (exact (1 / 100)) \<and>
   accounts bank_private ''P'' = Some 1 \<and>
   balance (objects bank_private ! 1) = 500 \<and>
   fst (transfer exact ''P'' ''P'' 100 [] bank_private) = True \<and>
   map amount (journal (snd (transfer exact ''P'' ''P'' 100 [] bank_private))) = [500, 100, 1] \<and>
   balance (objects (snd (transfer exact ''P'' ''P'' 100 [] bank_private)) ! 1) = 499"
  by code_simp

section \<open>The fee-collection account\<close>

lemma fee_grid_step:
  assumes idem: "\<forall>x. rnd (rnd x) = rnd x"
    and inv: "bank_inv b"
    and g: "rnd (balance (objects b ! fee_account b)) = balance (objects b ! fee_account b)"
  shows "rnd (balance (objects (step rnd op b) ! fee_account (step rnd op b))) =
         balance (objects (step rnd op b) ! fee_account (step rnd op b))"
proof -
  let ?P = "\<lambda>b. rnd (balance (objects b ! fee_account b)) = balance (objects b ! fee_account b)"
  show "?P (step rnd op b)"
  proof (rule step_preserves [where P = ?P and op = op and b = b and rnd = rnd])
    fix b :: Bank and fr to :: "nat option" and amt :: real and u
    assume i: "bank_inv b" and p: "?P b" and pos: "0 < amt"
    have fl: "fee_account b < length (objects b)" using i by (simp add: bank_inv_def)
    show "?P (snd (execute_transaction rnd fr to amt u b))"
      using pos fl p idem
      by (simp add: execute_frame execute_object Let_def record_transaction_def
            deposit_amount_def withdraw_amount_def)
  next
    fix b :: Bank and f aid
    assume i: "bank_inv b" and p: "?P b"
    have fl: "fee_account b < length (objects b)" using i by (simp add: bank_inv_def)
    show "?P (b\<lparr>objects := objects b @ [make_account f aid],
               accounts := (accounts b)(aid \<mapsto> length (objects b))\<rparr>)"
      using fl p by (simp add: nth_append)
  next
    fix b :: Bank and q
    assume i: "bank_inv b" and p: "?P b"
    have fl: "fee_account b < length (objects b)" using i by (simp add: bank_inv_def)
    show "?P (update_object q (\<lambda>a. a\<lparr>active := False\<rparr>) b)"
      using fl p by (auto simp: update_object_nth)
  next
    fix b :: Bank and q rate
    assume i: "bank_inv b" and p: "?P b"
    have fl: "fee_account b < length (objects b)" using i by (simp add: bank_inv_def)
    show "?P (update_object q (deposit_amount rnd (rnd (balance (objects b ! q) * rate))) b)"
      using fl p idem by (auto simp: update_object_nth deposit_amount_def)
  qed (use inv g in simp_all)
qed

lemma fee_grid_reachable:
  assumes idem: "\<forall>x. rnd (rnd x) = rnd x" and zero: "rnd 0 = 0"
  shows "rnd (balance (objects (run rnd ops (Bank_init rnd)) ! fee_account (run rnd ops (Bank_init rnd)))) =
         balance (objects (run rnd ops (Bank_init rnd)) ! fee_account (run rnd ops (Bank_init rnd)))"
proof -
  let ?P = "\<lambda>b. rnd (balance (objects b ! fee_account b)) = balance (objects b ! fee_account b)"
  have "bank_inv (run rnd ops (Bank_init rnd)) \<and> ?P (run rnd ops (Bank_init rnd))"
  proof (rule run_preserves [where P = ?P])
    show "bank_inv (Bank_init rnd)" by (rule bank_inv_init)
    show "?P (Bank_init rnd)"
      using zero
      by (simp add: Bank_init_def register_account_type_def Account_init_def Let_def)
    show "?P (step rnd op b)" if "bank_inv b" and "?P b" for op b
      using idem that by (rule fee_grid_step)
  qed
  then show ?thesis by simp
qed

lemma fee_balance_step:
  assumes mono: "\<forall>x y. x \<le> y \<longrightarrow> rnd x \<le> rnd y"
    and inv: "bank_inv b0"
    and g: "rnd (balance (objects b0 ! fee_account b0)) = balance (objects b0 ! fee_account b0)"
  shows "fee_account (step rnd op b0) = fee_account b0 \<and>
         balance (objects b0 ! fee_account b0) \<le>
           balance (objects (step rnd op b0) ! fee_account b0)"
proof -
  let ?f = "fee_account b0"
  let ?v = "balance (objects b0 ! fee_account b0)"
  let ?P = "\<lambda>b. fee_account b = ?f \<and> ?v \<le> balance (objects b ! ?f)"
  have rv: "rnd ?v = ?v" by (rule g)
  have up: "?v \<le> rnd (x + amt)" if "?v \<le> x" and "0 < amt" for x amt :: real
  proof -
    have "?v \<le> x + amt" using that by simp
    then have "rnd ?v \<le> rnd (x + amt)" using mono by blast
    then show ?thesis using rv by simp
  qed
  show "?P (step rnd op b0)"
  proof (rule step_preserves [where P = ?P and op = op and b = b0 and rnd = rnd])
    fix b :: Bank and fr to :: "nat option" and amt :: real and u
    assume i: "bank_inv b" and p: "?P b" and pos: "0 < amt"
      and fr: "\<forall>r. fr = Some r \<longrightarrow> r < length (objects b) \<and>
                 withdrawal_policy (objects b ! r) \<noteq> NoWithdrawalPolicy"
    have fl: "?f < length (objects b)" using i p by (simp add: bank_inv_def)
    have pol: "withdrawal_policy (objects b ! ?f) = NoWithdrawalPolicy"
      using i p by (simp add: bank_inv_def)
    have nf: "fr \<noteq> Some ?f" using fr pol by auto
    have "?v \<le> balance (objects (snd (execute_transaction rnd fr to amt u b)) ! ?f)"
      using pos fl nf p up [of "balance (objects b ! ?f)" amt]
      by (simp add: execute_object Let_def record_transaction_def deposit_amount_def)
    then show "?P (snd (execute_transaction rnd fr to amt u b))"
      using p by (simp add: execute_frame)
  next
    fix b :: Bank and f aid
    assume i: "bank_inv b" and p: "?P b"
    have fl: "?f < length (objects b)" using i p by (simp add: bank_inv_def)
    show "?P (b\<lparr>objects := objects b @ [make_account f aid],
               accounts := (accounts b)(aid \<mapsto> length (objects b))\<rparr>)"
      using fl p by (simp add: nth_append)
  next
    fix b :: Bank and q
    assume i: "bank_inv b" and p: "?P b"
    have fl: "?f < length (objects b)" using i p by (simp add: bank_inv_def)
    show "?P (update_object q (\<lambda>a. a\<lparr>active := False\<rparr>) b)"
      using fl p by (auto simp: update_object_nth)
  next
    fix b :: Bank and q rate
    assume i: "bank_inv b" and p: "?P b" and ir: "interest_rate (objects b ! q) = Some rate"
    have fl: "?f < length (objects b)" using i p by (simp add: bank_inv_def)
    have "interest_rate (objects b ! ?f) = None" using i p by (simp add: bank_inv_def)
    then have "q \<noteq> ?f" using ir by auto
    then show "?P (update_object q (deposit_amount rnd (rnd (balance (objects b ! q) * rate))) b)"
      using fl p by (simp add: update_object_nth)
  qed (use inv in simp_all)
qed

lemma fee_registry_step:
  assumes "bank_inv b" and "accounts b ''FEE-0001'' = Some (fee_account b)"
    and "\<not> opens_fee_id op"
  shows "accounts (step rnd op b) ''FEE-0001'' = Some (fee_account (step rnd op b))"
proof -
  let ?P = "\<lambda>b. accounts b ''FEE-0001'' = Some (fee_account b)"
  show "?P (step rnd op b)"
    by (rule step_preserves [where P = ?P and op = op and b = b and rnd = rnd])
       (use assms in \<open>simp_all add: execute_frame\<close>)
qed

lemma fee_registry_reachable:
  assumes "\<forall>op\<in>set ops. \<not> opens_fee_id op"
  shows "accounts (run rnd ops (Bank_init rnd)) ''FEE-0001'' =
         Some (fee_account (run rnd ops (Bank_init rnd)))"
proof -
  let ?P = "\<lambda>b. accounts b ''FEE-0001'' = Some (fee_account b)"
  have "bank_inv (run rnd ops (Bank_init rnd)) \<and> ?P (run rnd ops (Bank_init rnd))"
  proof (rule run_preserves [where P = ?P])
    show "bank_inv (Bank_init rnd)" by (rule bank_inv_init)
    show "?P (Bank_init rnd)"
      by (simp add: Bank_init_def register_account_type_def Account_init_def Let_def)
    show "?P (step rnd op b)" if "op \<in> set ops" and "bank_inv b" and "?P b" for op b
      using that assms by (intro fee_registry_step) auto
  qed
  then show ?thesis by simp
qed

lemma transfer_from_fee_account_fails:
  assumes "bank_inv b" and "accounts b ''FEE-0001'' = Some (fee_account b)"
  shows "transfer rnd ''FEE-0001'' c amt u b = (False, b)"
proof -
  have "withdrawal_policy (objects b ! fee_account b) = NoWithdrawalPolicy"
    using assms(1) by (simp add: bank_inv_def)
  then have "\<not> can_withdraw rnd (objects b ! fee_account b) x" for x
    by (simp add: can_withdraw_def)
  then show ?thesis using assms(2)
    by (simp add: transfer_def Let_def split: option.splits)
qed

text \<open>
  C5 (as amended). For a rounding that is monotone, leaves rounded numbers alone and leaves
  zero alone (as rounding to the nearest binary64 number does), in every state reached from
  a new bank no operation changes which object is the bank's fee-collection account or
  decreases its balance; and as long as no \<open>open_account\<close> call has named the identifier
  \<open>FEE-0001\<close> explicitly, every transfer naming \<open>FEE-0001\<close> as the debit account
  returns failure and changes nothing.
\<close>

theorem fee_account_never_decreases:
  assumes mono: "\<forall>x y. x \<le> y \<longrightarrow> rnd x \<le> rnd y"
    and idem: "\<forall>x. rnd (rnd x) = rnd x"
    and zero: "rnd 0 = 0"
  shows "fee_account (step rnd op (run rnd ops (Bank_init rnd))) =
           fee_account (run rnd ops (Bank_init rnd)) \<and>
         balance (objects (run rnd ops (Bank_init rnd)) ! fee_account (run rnd ops (Bank_init rnd)))
           \<le> balance (objects (step rnd op (run rnd ops (Bank_init rnd))) !
                        fee_account (run rnd ops (Bank_init rnd))) \<and>
         ((\<forall>p\<in>set ops. \<not> opens_fee_id p) \<longrightarrow>
            transfer rnd ''FEE-0001'' c amt u (run rnd ops (Bank_init rnd)) =
              (False, run rnd ops (Bank_init rnd)))"
proof -
  let ?b = "run rnd ops (Bank_init rnd)"
  have inv: "bank_inv ?b" by (rule bank_inv_reachable)
  have g: "rnd (balance (objects ?b ! fee_account ?b)) = balance (objects ?b ! fee_account ?b)"
    using idem zero by (rule fee_grid_reachable)
  have 1: "fee_account (step rnd op ?b) = fee_account ?b \<and>
           balance (objects ?b ! fee_account ?b) \<le> balance (objects (step rnd op ?b) ! fee_account ?b)"
    using mono inv g by (rule fee_balance_step)
  have 2: "transfer rnd ''FEE-0001'' c amt u ?b = (False, ?b)"
    if "\<forall>p\<in>set ops. \<not> opens_fee_id p"
    using inv fee_registry_reachable [OF that] by (rule transfer_from_fee_account_fails)
  show ?thesis using 1 2 by blast
qed

theorem fee_account_never_decreases_witness:
  "fee_account (run exact ops_fee (Bank_init exact)) = 0 \<and>
   balance (objects (run exact ops_fee (Bank_init exact)) ! 0) = 1 \<and>
   balance (objects (step exact (Transfer ''P'' ''Y'' 200 ''x'')
                       (run exact ops_fee (Bank_init exact))) ! 0) = 3 \<and>
   accounts (run exact ops_fee (Bank_init exact)) ''FEE-0001'' = Some 0 \<and>
   transfer exact ''FEE-0001'' ''Y'' 5 [] (run exact ops_fee (Bank_init exact)) =
     (False, run exact ops_fee (Bank_init exact))"
proof -
  let ?b = "run exact ops_fee (Bank_init exact)"
  have m: "\<forall>x y. x \<le> y \<longrightarrow> exact x \<le> exact y" by (simp add: exact_def)
  have i: "\<forall>x. exact (exact x) = exact x" by (simp add: exact_def)
  have z: "exact 0 = 0" by (simp add: exact_def)
  have h: "\<forall>p\<in>set ops_fee. \<not> opens_fee_id p" by (simp add: ops_fee_def)
  have f: "fee_account ?b = 0" by code_simp
  have v1: "balance (objects ?b ! 0) = 1" by code_simp
  have v2: "balance (objects (step exact (Transfer ''P'' ''Y'' 200 ''x'') ?b) ! 0) = 3"
    by code_simp
  have a: "accounts ?b ''FEE-0001'' = Some 0" by code_simp
  show ?thesis
    using h f v1 v2 a
      fee_account_never_decreases [OF m i z, where ops = ops_fee and c = "''Y''" and amt = 5
        and u = "[]" and op = "Transfer ''P'' ''Y'' 200 ''x''"]
    by simp
qed

text \<open>
  C5 as stated fails: once \<open>open_account\<close> has been called with the explicit identifier
  \<open>FEE-0001\<close> and an overdraft type, the registry entry of that identifier is an ordinary
  account, and a transfer naming it as the debit account succeeds and changes the bank.
\<close>

theorem replaced_fee_id_can_be_debited:
  "accounts bank_fee_replaced ''FEE-0001'' = Some 1 \<and>
   fee_account bank_fee_replaced = 0 \<and>
   get_balance ''FEE-0001'' bank_fee_replaced = Some 0 \<and>
   fst (transfer exact ''FEE-0001'' ''A'' 100 [] bank_fee_replaced) = True \<and>
   get_balance ''FEE-0001'' (snd (transfer exact ''FEE-0001'' ''A'' 100 [] bank_fee_replaced)) =
     Some (- 101) \<and>
   length (journal (snd (transfer exact ''FEE-0001'' ''A'' 100 [] bank_fee_replaced))) = 2 \<and>
   journal bank_fee_replaced = []"
  by code_simp

end
